theory Spec2Isabelle
  imports Complex_Main
begin

section \<open>Fractional octave filter banks of pyfar: the embedding\<close>

text \<open>
  The source is \<^verbatim>\<open>pyfar/dsp/filter/fractional_octaves.py\<close>. Floating point numbers of
  the source are real numbers here: every statement below is about exact real arithmetic.
  Exceptions are values of type \<open>error\<close>, returned on the left of a sum.
\<close>

datatype error =
    ValueError
  | ZeroDivisionError
  | TypeError
  | KeyError
  | IndexError
  | ArangeError \<comment> \<open>\<^verbatim>\<open>np.arange\<close> raises on a bound that is nan or infinite\<close>
  | NaNResult \<comment> \<open>no exception: the source returns nan, which is not a real number\<close>

subsection \<open>Numpy helpers\<close>

text \<open>\<^verbatim>\<open>np.round\<close> / \<^verbatim>\<open>np.around\<close>: rounding to the nearest integer, halves to the even one.\<close>

definition np_round :: "real \<Rightarrow> int" where
  "np_round x =
     (let f = \<lfloor>x\<rfloor>; d = x - of_int f
      in if d < 1/2 then f
         else if 1/2 < d then f + 1
         else if even f then f else f + 1)"

text \<open>Indexing an array with a boolean mask: \<^verbatim>\<open>xs[mask]\<close>.\<close>

definition mask_select :: "bool list \<Rightarrow> 'a list \<Rightarrow> 'a list" where
  "mask_select msk xs = map snd (filter fst (zip msk xs))"

subsection \<open>The frequency grid\<close>

definition octave_ratio :: real where
  "octave_ratio = 10 powr (3 / 10)"

definition nominal_octaves :: "real list" where
  "nominal_octaves = [31.5, 63, 125, 250, 500, 1000, 2000, 4000, 8000, 16000]"

definition nominal_thirds :: "real list" where
  "nominal_thirds =
     [25, 31.5, 40, 50, 63, 80, 100, 125, 160,
      200, 250, 315, 400, 500, 630, 800, 1000,
      1250, 1600, 2000, 2500, 3150, 4000, 5000,
      6300, 8000, 10000, 12500, 16000, 20000]"

text \<open>
  \<^verbatim>\<open>__center_frequencies_fractional_octaves_iec(nominal, num_fractions)\<close>, called with
  \<^verbatim>\<open>nominal = None\<close>. For a fraction other than 1 and 3 the table stays \<^verbatim>\<open>None\<close> and
  \<^verbatim>\<open>nominal/reference_freq\<close> raises \<^verbatim>\<open>TypeError\<close>.
\<close>

definition iec_exact_odd :: "int \<Rightarrow> real \<Rightarrow> real" where
  "iec_exact_odd num_fractions f =
     (let indices = np_round (of_int num_fractions * ln (f / 1000) / ln octave_ratio);
          exponent = of_int indices / of_int num_fractions
      in 1000 * octave_ratio powr exponent)"

definition iec_exact_even :: "int \<Rightarrow> real \<Rightarrow> real" where
  "iec_exact_even num_fractions f =
     (let indices =
            of_int (np_round (2 * of_int num_fractions * ln (f / 1000) / ln octave_ratio - 1)) / 2;
          exponent = (2 * indices + 1) / of_int num_fractions / 2
      in 1000 * octave_ratio powr exponent)"

definition center_frequencies_fractional_octaves_iec ::
  "int \<Rightarrow> error + (real list \<times> real list)" where
  "center_frequencies_fractional_octaves_iec num_fractions =
     (if num_fractions = 1 \<or> num_fractions = 3 then
        (let nominal = (if num_fractions = 1 then nominal_octaves else nominal_thirds);
             iseven = (num_fractions mod 2 = 0);
             exact = (if \<not> iseven then map (iec_exact_odd num_fractions) nominal
                      else map (iec_exact_even num_fractions) nominal)
         in Inr (nominal, exact))
      else Inl TypeError)"

text \<open>
  \<^verbatim>\<open>__exact_center_frequencies_fractional_octaves(num_fractions, freq_range)\<close>.
  The bounds of \<^verbatim>\<open>np.arange\<close> are integral floats, so the indices are the integers from
  \<open>-Nmin\<close> to \<open>Nmax\<close>. With a lower limit that is not positive, \<^verbatim>\<open>np.log2\<close> gives
  nan or infinity and \<^verbatim>\<open>np.arange\<close> raises. With \<^verbatim>\<open>num_fractions = 0\<close> the division
  \<^verbatim>\<open>indices / num_fractions\<close> of numpy gives nan without raising.
\<close>

definition exact_center_frequencies_fractional_octaves ::
  "int \<Rightarrow> real \<Rightarrow> real \<Rightarrow> error + real list" where
  "exact_center_frequencies_fractional_octaves num_fractions low high =
     (let ref_freq = 1000 in
      if low \<le> 0 \<or> high \<le> 0 then Inl ArangeError
      else
        (let Nmax = np_round (of_int num_fractions * log 2 (high / ref_freq));
             Nmin = np_round (of_int num_fractions * log 2 (ref_freq / low));
             indices = [- Nmin .. Nmax]
         in if num_fractions = 0 then Inl NaNResult
            else Inr (map (\<lambda>i. ref_freq * 2 powr (of_int i / of_int num_fractions)) indices)))"

text \<open>
  \<^verbatim>\<open>fractional_octave_frequencies(num_fractions, freq_range, return_cutoff)\<close>. The range is
  the flattened \<^verbatim>\<open>np.asarray(freq_range)\<close>. The result is \<^verbatim>\<open>(nominal, exact)\<close> or
  \<^verbatim>\<open>(nominal, exact, (freqs_lower, freqs_upper))\<close>, where \<^verbatim>\<open>nominal\<close> may be \<^verbatim>\<open>None\<close>.
  The exponent \<^verbatim>\<open>1/2/num_fractions\<close> is a division of Python numbers: it raises
  \<^verbatim>\<open>ZeroDivisionError\<close> for \<^verbatim>\<open>num_fractions = 0\<close>.
\<close>

type_synonym grid = "real list option \<times> real list \<times> (real list \<times> real list) option"

definition center_frequencies :: "int \<Rightarrow> real \<Rightarrow> real \<Rightarrow> error + (real list option \<times> real list)" where
  "center_frequencies num_fractions low high =
     (if num_fractions = 1 \<or> num_fractions = 3 then
        (case center_frequencies_fractional_octaves_iec num_fractions of
           Inl e \<Rightarrow> Inl e
         | Inr (nominal, exact) \<Rightarrow>
             (let msk = map (\<lambda>f. low \<le> f \<and> f \<le> high) nominal
              in Inr (Some (mask_select msk nominal), mask_select msk exact)))
      else
        (case exact_center_frequencies_fractional_octaves num_fractions low high of
           Inl e \<Rightarrow> Inl e
         | Inr exact \<Rightarrow> Inr (None, exact)))"

definition fractional_octave_frequencies :: "int \<Rightarrow> real list \<Rightarrow> bool \<Rightarrow> error + grid" where
  "fractional_octave_frequencies num_fractions freq_range return_cutoff =
     (if length freq_range \<noteq> 2 then Inl ValueError
      else if freq_range ! 0 > freq_range ! 1 then Inl ValueError
      else
        (case center_frequencies num_fractions (freq_range ! 0) (freq_range ! 1) of
           Inl e \<Rightarrow>
             (if e = NaNResult \<and> return_cutoff then Inl ZeroDivisionError else Inl e)
         | Inr (nominal, exact) \<Rightarrow>
             if return_cutoff then
               (if num_fractions = 0 then Inl ZeroDivisionError
                else
                  (let freqs_upper =
                         map (\<lambda>f. f * octave_ratio powr (1 / 2 / of_int num_fractions)) exact;
                       freqs_lower =
                         map (\<lambda>f. f * octave_ratio powr (- 1 / 2 / of_int num_fractions)) exact
                   in Inr (nominal, exact, Some (freqs_lower, freqs_upper))))
             else Inr (nominal, exact, None)))"

text \<open>The first component of the result: the nominal frequencies.\<close>

definition nominal_of :: "error + grid \<Rightarrow> error + real list option" where
  "nominal_of r = (case r of Inl e \<Rightarrow> Inl e | Inr (nominal, exact, cutoff) \<Rightarrow> Inr nominal)"

subsection \<open>Array slices\<close>

text \<open>
  Python normalises the bound of a slice against the length of the array: a negative
  bound counts from the end, and the result is clipped to the array.
\<close>

definition slice_bound :: "nat \<Rightarrow> int \<Rightarrow> nat" where
  "slice_bound n i = (if i < 0 then nat (max 0 (i + int n)) else min (nat i) n)"

text \<open>
  \<^verbatim>\<open>row[start:stop] = vals\<close> for an array \<^verbatim>\<open>vals\<close>: the lengths must agree, or \<^verbatim>\<open>vals\<close> has
  one element, which is broadcast; otherwise numpy raises \<^verbatim>\<open>ValueError\<close>.
\<close>

definition slice_assign :: "real list \<Rightarrow> int \<Rightarrow> int \<Rightarrow> real list \<Rightarrow> error + real list" where
  "slice_assign row start stop vals =
     (let s = slice_bound (length row) start;
          e = slice_bound (length row) stop;
          len = e - s
      in if length vals = len then Inr (take s row @ vals @ drop (s + len) row)
         else if length vals = 1 then Inr (take s row @ replicate len (hd vals) @ drop (s + len) row)
         else Inl ValueError)"

text \<open>\<^verbatim>\<open>row[start:] = 0.\<close> and \<^verbatim>\<open>row[:stop] = 0.\<close>\<close>

definition zero_from :: "real list \<Rightarrow> int \<Rightarrow> real list" where
  "zero_from row start =
     (let s = slice_bound (length row) start
      in take s row @ replicate (length row - s) 0)"

definition zero_before :: "real list \<Rightarrow> int \<Rightarrow> real list" where
  "zero_before row stop =
     (let e = slice_bound (length row) stop
      in replicate e 0 @ drop e row)"

subsection \<open>The reconstructing filter bank: magnitude responses\<close>

datatype warning =
    SkippingBands \<comment> \<open>"Skipping bands above the Nyquist frequency"\<close>
  | UpperLimitAboveNyquist real \<comment> \<open>"The upper frequency limit ... Using a highpass ..."\<close>

text \<open>
  The ramp of one band boundary with overlap \<open>P > 0\<close>:
  \<^verbatim>\<open>p = np.arange(-P, P + 1); phi = p / P\<close>, then \<^verbatim>\<open>slope\<close> times
  \<^verbatim>\<open>phi = np.sin(np.pi / 2 * phi)\<close>, then \<^verbatim>\<open>phi = .5 * (phi + 1)\<close>.
\<close>

definition ramp_phi :: "int \<Rightarrow> int \<Rightarrow> real list" where
  "ramp_phi slope P =
     (let p = [- P .. P];
          phi = map (\<lambda>p. of_int p / of_int P) p;
          phi = ((map (\<lambda>x. sin (pi / 2 * x))) ^^ (nat slope)) phi
      in map (\<lambda>x. 0.5 * (x + 1)) phi)"

text \<open>
  One pass of the loop over \<^verbatim>\<open>b_idx\<close>: the fades on the rows \<^verbatim>\<open>b_idx - 1\<close> and
  \<^verbatim>\<open>b_idx\<close> when \<^verbatim>\<open>P[b_idx] > 0\<close>, then the zeros outside the range of both rows.
\<close>

definition mask_fades :: "int list \<Rightarrow> int list \<Rightarrow> int \<Rightarrow> nat \<Rightarrow> real list list \<Rightarrow> error + real list list" where
  "mask_fades k_1 P slope b_idx g =
     (if P ! b_idx > 0 then
        (let phi = ramp_phi slope (P ! b_idx);
             start = k_1 ! b_idx - P ! b_idx;
             stop = k_1 ! b_idx + P ! b_idx + 1
         in case slice_assign (g ! (b_idx - 1)) start stop (map (\<lambda>x. cos (pi / 2 * x)) phi) of
              Inl e \<Rightarrow> Inl e
            | Inr fade_out \<Rightarrow>
                (case slice_assign (g ! b_idx) start stop (map (\<lambda>x. sin (pi / 2 * x)) phi) of
                   Inl e \<Rightarrow> Inl e
                 | Inr fade_in \<Rightarrow> Inr (g[b_idx - 1 := fade_out, b_idx := fade_in])))
      else Inr g)"

definition mask_zeros :: "int list \<Rightarrow> int list \<Rightarrow> nat \<Rightarrow> real list list \<Rightarrow> real list list" where
  "mask_zeros k_1 P b_idx g =
     (let g = g[b_idx - 1 := zero_from (g ! (b_idx - 1)) (k_1 ! b_idx + P ! b_idx)]
      in g[b_idx := zero_before (g ! b_idx) (k_1 ! b_idx - P ! b_idx)])"

definition mask_step :: "int list \<Rightarrow> int list \<Rightarrow> int \<Rightarrow> nat \<Rightarrow> real list list \<Rightarrow> error + real list list" where
  "mask_step k_1 P slope b_idx g =
     (case mask_fades k_1 P slope b_idx g of
        Inl e \<Rightarrow> Inl e
      | Inr g \<Rightarrow> Inr (mask_zeros k_1 P b_idx g))"

fun mask_loop :: "int list \<Rightarrow> int list \<Rightarrow> int \<Rightarrow> nat list \<Rightarrow> real list list \<Rightarrow> error + real list list" where
  "mask_loop k_1 P slope [] g = Inr g"
| "mask_loop k_1 P slope (b_idx # rest) g =
     (case mask_step k_1 P slope b_idx g of
        Inl e \<Rightarrow> Inl e
      | Inr g \<Rightarrow> mask_loop k_1 P slope rest g)"

text \<open>
  The DFT lines \<^verbatim>\<open>k_1\<close>, \<^verbatim>\<open>k_m\<close>, \<^verbatim>\<open>k_2\<close> of the bands below half the sampling rate and
  the overlaps \<^verbatim>\<open>P\<close>, with the flag \<^verbatim>\<open>np.all(f_id)\<close>.
\<close>

record band_lines =
  line_k_1 :: "int list"
  line_k_m :: "int list"
  line_k_2 :: "int list"
  line_P :: "int list"
  all_kept :: bool

definition dft_lines :: "real list \<Rightarrow> real list \<times> real list \<Rightarrow> real \<Rightarrow> int \<Rightarrow> real \<Rightarrow> band_lines" where
  "dft_lines f_m f_cut_off overlap n_samples sampling_rate =
     (let f_id = map (\<lambda>f. f < sampling_rate / 2) f_m;
          line = (\<lambda>f. np_round (of_int n_samples * f / sampling_rate));
          k1 = map line (mask_select f_id (fst f_cut_off));
          km = map line (mask_select f_id f_m);
          k2 = map line (mask_select f_id (snd f_cut_off));
          Ps = map (\<lambda>(k2, km). np_round (overlap / 2 * of_int (k2 - km))) (zip k2 km)
      in \<lparr>line_k_1 = k1, line_k_m = km, line_k_2 = k2, line_P = Ps,
          all_kept = list_all (\<lambda>b. b) f_id\<rparr>)"

text \<open>
  \<^verbatim>\<open>ReconstructingFractionalOctaveBands._get_coefficients\<close> up to and including
  \<^verbatim>\<open>g = g**2\<close>. The method does not read \<^verbatim>\<open>self\<close>. The result comes with the warnings
  emitted. Unpacking a pair into three names raises \<^verbatim>\<open>ValueError\<close>, and so does
  \<^verbatim>\<open>np.ones\<close> on a negative dimension.
\<close>

definition squared_magnitudes ::
  "int \<Rightarrow> real list \<Rightarrow> real \<Rightarrow> int \<Rightarrow> int \<Rightarrow> real \<Rightarrow> (error + real list list) \<times> warning list" where
  "squared_magnitudes num_fractions freq_range overlap slope n_samples sampling_rate =
     (let n_bins = n_samples div 2 + 1 in
      case fractional_octave_frequencies num_fractions freq_range True of
        Inl e \<Rightarrow> (Inl e, [])
      | Inr (nominal, f_m, None) \<Rightarrow> (Inl ValueError, [])
      | Inr (nominal, f_m, Some f_cut_off) \<Rightarrow>
          (let lines = dft_lines f_m f_cut_off overlap n_samples sampling_rate;
               ws = (if \<not> all_kept lines then [SkippingBands] else [])
           in if n_bins < 0 then (Inl ValueError, ws)
              else
                (let g = replicate (length (line_k_m lines)) (replicate (nat n_bins) 1)
                 in case mask_loop (line_k_1 lines) (line_P lines) slope
                           [1 ..< length (line_k_m lines)] g of
                      Inl e \<Rightarrow> (Inl e, ws)
                    | Inr g \<Rightarrow> (Inr (map (map (\<lambda>x. x ^ 2)) g), ws))))"

text \<open>
  The rest of the method turns the magnitudes into windowed impulse responses with
  \<^verbatim>\<open>pf.dsp.fft.rfftfreq\<close>, \<^verbatim>\<open>pf.dsp.fft.irfft\<close> and \<^verbatim>\<open>sgn.windows.hann\<close>, which are not
  part of this file: they are the parameter \<open>synthesis\<close>, applied to the magnitudes,
  \<^verbatim>\<open>n_samples\<close> and \<^verbatim>\<open>sampling_rate\<close>.
\<close>

type_synonym synthesis = "real list list \<Rightarrow> int \<Rightarrow> real \<Rightarrow> error + real list list"

subsection \<open>The energy preserving filter bank: second order sections\<close>

datatype btype = Highpass | Bandpass

text \<open>
  \<^verbatim>\<open>sgn.butter(order, Wn, btype=btype, output='sos')\<close> is a parameter: a function from the
  order, the critical frequencies and the type to an array of sections, or an exception.
  The library raises \<^verbatim>\<open>ValueError\<close> unless every critical frequency is strictly between 0
  and 1; the exception reaches the caller.
\<close>

type_synonym sos = "real list list"
type_synonym butter = "int \<Rightarrow> real list \<Rightarrow> btype \<Rightarrow> error + sos"

text \<open>
  Modelled from the spec: \<^verbatim>\<open>pf.classes.filter._extend_sos_coefficients(sos, order)\<close> is
  not in the sources. The specification says that it pads the sections up to \<^verbatim>\<open>order\<close>
  sections with unity-gain passthrough biquads of coefficients \<^verbatim>\<open>[1,0,0,1,0,0]\<close>. More
  sections than \<^verbatim>\<open>order\<close> cannot be padded up to \<^verbatim>\<open>order\<close>: the number of sections to
  add is negative, which is an error.
\<close>

definition extend_sos_coefficients :: "sos \<Rightarrow> int \<Rightarrow> error + sos" where
  "extend_sos_coefficients sos_hp order =
     (if order < int (length sos_hp) then Inl ValueError
      else Inr (sos_hp @ replicate (nat (order - int (length sos_hp))) [1, 0, 0, 1, 0, 0]))"

text \<open>
  \<^verbatim>\<open>sos[idx, :, :] = sos_coeff\<close> into a slot of shape \<^verbatim>\<open>(order, 6)\<close>: numpy broadcasts an
  axis of length one and raises \<^verbatim>\<open>ValueError\<close> on any other mismatch.
\<close>

definition broadcast_axis :: "nat \<Rightarrow> 'a list \<Rightarrow> error + 'a list" where
  "broadcast_axis n xs =
     (if length xs = n then Inr xs
      else if length xs = 1 then Inr (replicate n (hd xs))
      else Inl ValueError)"

definition assign_band :: "int \<Rightarrow> sos \<Rightarrow> error + sos" where
  "assign_band order sos_coeff =
     (if list_all (\<lambda>row. length row = 6) sos_coeff then broadcast_axis (nat order) sos_coeff
      else if list_all (\<lambda>row. length row = 1) sos_coeff then
        broadcast_axis (nat order) (map (\<lambda>row. replicate 6 (hd row)) sos_coeff)
      else Inl ValueError)"

text \<open>The body of the loop over \<^verbatim>\<open>enumerate(Wns)\<close> for one band.\<close>

definition design_band ::
  "butter \<Rightarrow> int \<Rightarrow> real list \<Rightarrow> nat \<Rightarrow> real \<times> real \<Rightarrow> (error + sos) \<times> warning list" where
  "design_band butter order freqs_upper idx Wn =
     (if snd Wn > 1 then
        (let ws = [UpperLimitAboveNyquist (of_int (np_round (freqs_upper ! idx * 10)) / 10)]
         in case butter order [fst Wn] Highpass of
              Inl e \<Rightarrow> (Inl e, ws)
            | Inr sos_hp \<Rightarrow>
                (case extend_sos_coefficients sos_hp order of
                   Inl e \<Rightarrow> (Inl e, ws)
                 | Inr sos_coeff \<Rightarrow> (assign_band order sos_coeff, ws)))
      else
        (case butter order [fst Wn, snd Wn] Bandpass of
           Inl e \<Rightarrow> (Inl e, [])
         | Inr sos_coeff \<Rightarrow> (assign_band order sos_coeff, [])))"

fun design_bands ::
  "butter \<Rightarrow> int \<Rightarrow> real list \<Rightarrow> nat \<Rightarrow> (real \<times> real) list \<Rightarrow> (error + sos list) \<times> warning list" where
  "design_bands butter order freqs_upper idx [] = (Inr [], [])"
| "design_bands butter order freqs_upper idx (Wn # Wns) =
     (case design_band butter order freqs_upper idx Wn of
        (Inl e, ws) \<Rightarrow> (Inl e, ws)
      | (Inr band, ws) \<Rightarrow>
          (case design_bands butter order freqs_upper (Suc idx) Wns of
             (Inl e, ws') \<Rightarrow> (Inl e, ws @ ws')
           | (Inr bands, ws') \<Rightarrow> (Inr (band # bands), ws @ ws')))"

text \<open>
  The normalised band edges \<^verbatim>\<open>Wns\<close>, the mask \<^verbatim>\<open>mask_skip = Wns[:, 0] >= 1\<close> and the
  bands that are kept. A sampling rate of zero makes every edge infinite in numpy (the
  frequencies are positive), so that every band is skipped.
\<close>

definition normalized_edges :: "real list \<times> real list \<Rightarrow> real \<Rightarrow> (real \<times> real) list" where
  "normalized_edges f_crit sampling_rate =
     map (\<lambda>(lo, up). (lo / sampling_rate * 2, up / sampling_rate * 2)) (zip (fst f_crit) (snd f_crit))"

definition mask_skip :: "real list \<times> real list \<Rightarrow> real \<Rightarrow> bool list" where
  "mask_skip f_crit sampling_rate =
     map (\<lambda>Wn. sampling_rate = 0 \<or> fst Wn \<ge> 1) (normalized_edges f_crit sampling_rate)"

definition kept_edges :: "real list \<times> real list \<Rightarrow> real \<Rightarrow> (real \<times> real) list" where
  "kept_edges f_crit sampling_rate =
     (let Wns = normalized_edges f_crit sampling_rate;
          skip = mask_skip f_crit sampling_rate
      in if list_ex (\<lambda>b. b) skip then mask_select (map Not skip) Wns else Wns)"

text \<open>
  \<^verbatim>\<open>FractionalOctaveBands._get_coefficients\<close> on numbers: the sampling rate, the number of
  fractions, the flattened frequency range and the order. Taking item 2 of a pair raises
  \<^verbatim>\<open>IndexError\<close>; \<^verbatim>\<open>np.zeros\<close> raises \<^verbatim>\<open>ValueError\<close> on a negative dimension.
\<close>

definition sos_coefficients ::
  "butter \<Rightarrow> real \<Rightarrow> int \<Rightarrow> real list \<Rightarrow> int \<Rightarrow> (error + sos list) \<times> warning list" where
  "sos_coefficients butter sampling_rate num_fractions freq_range order =
     (case fractional_octave_frequencies num_fractions freq_range True of
        Inl e \<Rightarrow> (Inl e, [])
      | Inr (nominal, exact, None) \<Rightarrow> (Inl IndexError, [])
      | Inr (nominal, exact, Some f_crit) \<Rightarrow>
          (let freqs_upper = snd f_crit;
               Wns = kept_edges f_crit sampling_rate;
               ws = (if list_ex (\<lambda>b. b) (mask_skip f_crit sampling_rate) then [SkippingBands]
                     else [])
           in if order < 0 then (Inl ValueError, ws)
              else
                (case design_bands butter order freqs_upper 0 Wns of
                   (r, ws') \<Rightarrow> (r, ws @ ws'))))"

subsection \<open>Python values and objects\<close>

text \<open>
  The arguments of the constructors are untyped. An object is its \<^verbatim>\<open>__dict__\<close>: a map from
  attribute names to values.
\<close>

datatype pyval =
    PyNone
  | PyInt int
  | PyFloat real
  | PyStr string
  | PyTuple "pyval list"
  | PyArray "real list"
  | PyArray2 "real list list"
  | PyArray3 "real list list list"

type_synonym obj = "string \<rightharpoonup> pyval"

fun number :: "pyval \<Rightarrow> real option" where
  "number (PyInt i) = Some (of_int i)"
| "number (PyFloat x) = Some x"
| "number v = None"

text \<open>
  \<^verbatim>\<open>np.asarray(freq_range)\<close>, flattened: a number is an array of size one, a tuple of
  numbers is the array of its entries. Other values are not followed further and are
  reported as \<open>TypeError\<close>.
\<close>

definition asarray :: "pyval \<Rightarrow> error + real list" where
  "asarray v =
     (case v of
        PyInt i \<Rightarrow> Inr [of_int i]
      | PyFloat x \<Rightarrow> Inr [x]
      | PyTuple vs \<Rightarrow>
          (if list_all (\<lambda>v. number v \<noteq> None) vs then Inr (map (\<lambda>v. the (number v)) vs)
           else Inl TypeError)
      | _ \<Rightarrow> Inl TypeError)"

definition nominal_val :: "real list option \<Rightarrow> pyval" where
  "nominal_val nominal = (case nominal of None \<Rightarrow> PyNone | Some xs \<Rightarrow> PyArray xs)"

definition cutoff_val :: "(real list \<times> real list) option \<Rightarrow> pyval" where
  "cutoff_val cutoff =
     (case cutoff of None \<Rightarrow> PyNone | Some (lo, up) \<Rightarrow> PyTuple [PyArray lo, PyArray up])"

text \<open>
  Modelled from the spec: the constructors of the super classes \<^verbatim>\<open>pft.FilterSOS\<close> and
  \<^verbatim>\<open>pft.FilterFIR\<close> are not in the sources. The specification says that the filter bank
  object owns the coefficients and the parameters: the constructor stores the coefficients
  and the sampling rate.
\<close>

definition filter_init :: "obj \<Rightarrow> pyval \<Rightarrow> pyval \<Rightarrow> obj" where
  "filter_init self coefficients sampling_rate =
     self(''_coefficients'' \<mapsto> coefficients, ''_sampling_rate'' \<mapsto> sampling_rate)"

subsection \<open>The class \<^verbatim>\<open>FractionalOctaveBands\<close>\<close>

text \<open>
  \<^verbatim>\<open>_get_coefficients(self, sampling_rate, num_fractions, freq_range, order)\<close>. The method
  does not read \<^verbatim>\<open>self\<close>. The frequencies come first; then a sampling rate that is not a
  number or an order that is not an \<^verbatim>\<open>int\<close> is reported as \<open>TypeError\<close> and not followed
  further. The same holds for a number of fractions that is not an \<^verbatim>\<open>int\<close>.
\<close>

definition FractionalOctaveBands_get_coefficients ::
  "butter \<Rightarrow> obj \<Rightarrow> pyval \<Rightarrow> pyval \<Rightarrow> pyval \<Rightarrow> pyval \<Rightarrow> (error + pyval) \<times> warning list" where
  "FractionalOctaveBands_get_coefficients butter self sampling_rate num_fractions freq_range order =
     (case num_fractions of
        PyInt nf \<Rightarrow>
          (case asarray freq_range of
             Inl e \<Rightarrow> (Inl e, [])
           | Inr f_lims \<Rightarrow>
               (case fractional_octave_frequencies nf f_lims True of
                  Inl e \<Rightarrow> (Inl e, [])
                | Inr grid \<Rightarrow>
                    (case (number sampling_rate, order) of
                       (Some sr, PyInt ord) \<Rightarrow>
                         (case sos_coefficients butter sr nf f_lims ord of
                            (Inl e, ws) \<Rightarrow> (Inl e, ws)
                          | (Inr sos, ws) \<Rightarrow> (Inr (PyArray3 sos), ws))
                     | _ \<Rightarrow> (Inl TypeError, []))))
      | _ \<Rightarrow> (Inl TypeError, []))"

text \<open>\<^verbatim>\<open>__init__(self, num_fractions, sampling_rate, freq_range, order)\<close>\<close>

definition FractionalOctaveBands_init ::
  "butter \<Rightarrow> pyval \<Rightarrow> pyval \<Rightarrow> pyval \<Rightarrow> pyval \<Rightarrow> (error + obj) \<times> warning list" where
  "FractionalOctaveBands_init butter num_fractions sampling_rate freq_range order =
     (let self = [''_num_fractions'' \<mapsto> num_fractions, ''_sampling_rate'' \<mapsto> sampling_rate,
                  ''_freq_range'' \<mapsto> freq_range, ''_order'' \<mapsto> order]
      in case num_fractions of
           PyInt nf \<Rightarrow>
             (case asarray freq_range of
                Inl e \<Rightarrow> (Inl e, [])
              | Inr f_lims \<Rightarrow>
                  (case fractional_octave_frequencies nf f_lims True of
                     Inl e \<Rightarrow> (Inl e, [])
                   | Inr (nominal, exact, cutoff) \<Rightarrow>
                       (let self = self(''_norm_frequencies'' \<mapsto> nominal_val nominal,
                                        ''_exact_frequencies'' \<mapsto> PyArray exact,
                                        ''_cutoff_frequencies'' \<mapsto> cutoff_val cutoff)
                        in case FractionalOctaveBands_get_coefficients butter self
                                  sampling_rate num_fractions freq_range order of
                             (Inl e, ws) \<Rightarrow> (Inl e, ws)
                           | (Inr coefficients, ws) \<Rightarrow>
                               (Inr ((filter_init self coefficients sampling_rate)
                                       (''comment'' \<mapsto> PyStr (''Second order section 1/{num_fractions} fractional octave band'' @ ''filter of order {order}''))),
                                ws))))
         | _ \<Rightarrow> (Inl TypeError, []))"


text \<open>\<^verbatim>\<open>_encode\<close> and \<^verbatim>\<open>_decode\<close>. A missing key raises \<^verbatim>\<open>KeyError\<close>.\<close>

definition encode :: "string list \<Rightarrow> obj \<Rightarrow> error + obj" where
  "encode keep self =
     (if list_all (\<lambda>k. self k \<noteq> None) keep then Inr (self |` set keep) else Inl KeyError)"

definition FractionalOctaveBands_encode :: "obj \<Rightarrow> error + obj" where
  "FractionalOctaveBands_encode self =
     encode [''_num_fractions'', ''_freq_range'', ''_order'', ''_sampling_rate''] self"

definition FractionalOctaveBands_decode :: "butter \<Rightarrow> obj \<Rightarrow> (error + obj) \<times> warning list" where
  "FractionalOctaveBands_decode butter obj_dict =
     (case (obj_dict ''_num_fractions'', obj_dict ''_freq_range'',
            obj_dict ''_order'', obj_dict ''_sampling_rate'') of
        (Some a1, Some a2, Some a3, Some a4) \<Rightarrow>
          (case FractionalOctaveBands_init butter a1 a2 a3 a4 of
             (Inl e, ws) \<Rightarrow> (Inl e, ws)
           | (Inr obj, ws) \<Rightarrow> (Inr (obj ++ obj_dict), ws))
      | _ \<Rightarrow> (Inl KeyError, []))"

subsection \<open>The class \<^verbatim>\<open>ReconstructingFractionalOctaveBands\<close>\<close>

text \<open>
  \<^verbatim>\<open>_get_coefficients(self, num_fractions, freq_range, overlap, slope, n_samples,
  sampling_rate)\<close>. The method does not read \<^verbatim>\<open>self\<close>. Arguments that are not numbers of
  the documented types are reported as \<open>TypeError\<close> and not followed further.
\<close>

definition ReconstructingFractionalOctaveBands_get_coefficients ::
  "synthesis \<Rightarrow> obj \<Rightarrow> pyval \<Rightarrow> pyval \<Rightarrow> pyval \<Rightarrow> pyval \<Rightarrow> pyval \<Rightarrow> pyval
     \<Rightarrow> (error + pyval) \<times> warning list" where
  "ReconstructingFractionalOctaveBands_get_coefficients synthesis self
       num_fractions freq_range overlap slope n_samples sampling_rate =
     (case num_fractions of
        PyInt nf \<Rightarrow>
          (case asarray freq_range of
             Inl e \<Rightarrow> (Inl e, [])
           | Inr f_lims \<Rightarrow>
               (case fractional_octave_frequencies nf f_lims True of
                  Inl e \<Rightarrow> (Inl e, [])
                | Inr grid \<Rightarrow>
                    (case (number overlap, slope, n_samples, number sampling_rate) of
                       (Some ov, PyInt sl, PyInt n, Some sr) \<Rightarrow>
                         (case squared_magnitudes nf f_lims ov sl n sr of
                            (Inl e, ws) \<Rightarrow> (Inl e, ws)
                          | (Inr g, ws) \<Rightarrow>
                              (case synthesis g n sr of
                                 Inl e \<Rightarrow> (Inl e, ws)
                               | Inr time \<Rightarrow> (Inr (PyArray2 time), ws)))
                     | _ \<Rightarrow> (Inl TypeError, []))))
      | _ \<Rightarrow> (Inl TypeError, []))"

text \<open>
  \<^verbatim>\<open>__init__(self, num_fractions, freq_range, overlap, slope, n_samples, sampling_rate)\<close>.
  The comment is kept as the text with the values formatted into it.
\<close>

definition slope_is_valid :: "pyval \<Rightarrow> bool" where
  "slope_is_valid slope = (case slope of PyInt s \<Rightarrow> \<not> s < 0 | _ \<Rightarrow> False)"

definition ReconstructingFractionalOctaveBands_init ::
  "synthesis \<Rightarrow> pyval \<Rightarrow> pyval \<Rightarrow> pyval \<Rightarrow> pyval \<Rightarrow> pyval \<Rightarrow> pyval
     \<Rightarrow> (error + obj) \<times> warning list" where
  "ReconstructingFractionalOctaveBands_init synthesis
       num_fractions freq_range overlap slope n_samples sampling_rate =
     (case number overlap of
        None \<Rightarrow> (Inl TypeError, [])
      | Some ov \<Rightarrow>
          if ov < 0 \<or> ov > 1 then (Inl ValueError, [])
          else if \<not> slope_is_valid slope then (Inl ValueError, [])
          else
            (let self = [''_num_fractions'' \<mapsto> num_fractions, ''_freq_range'' \<mapsto> freq_range,
                         ''_overlap'' \<mapsto> overlap, ''_slope'' \<mapsto> slope,
                         ''_n_samples'' \<mapsto> n_samples, ''_sampling_rate'' \<mapsto> sampling_rate]
             in case num_fractions of
                  PyInt nf \<Rightarrow>
                    (case asarray freq_range of
                       Inl e \<Rightarrow> (Inl e, [])
                     | Inr f_lims \<Rightarrow>
                         (case fractional_octave_frequencies nf f_lims True of
                            Inl e \<Rightarrow> (Inl e, [])
                          | Inr (nominal, exact, cutoff) \<Rightarrow>
                              (let self = self(''_norm_frequencies'' \<mapsto> nominal_val nominal,
                                               ''_exact_frequencies'' \<mapsto> PyArray exact,
                                               ''_cutoff_frequencies'' \<mapsto> cutoff_val cutoff)
                               in case ReconstructingFractionalOctaveBands_get_coefficients
                                         synthesis self num_fractions freq_range overlap slope
                                         n_samples sampling_rate of
                                    (Inl e, ws) \<Rightarrow> (Inl e, ws)
                                  | (Inr coefficients, ws) \<Rightarrow>
                                      (Inr ((filter_init (self(''_coefficients'' \<mapsto> coefficients))
                                               coefficients sampling_rate)
                                              (''comment'' \<mapsto>
                                                 PyTuple [PyStr ''Reconstructing linear phase fractional octave filter bank.'',
                                                          num_fractions, freq_range, overlap, slope])),
                                       ws))))
                | _ \<Rightarrow> (Inl TypeError, [])))"

definition ReconstructingFractionalOctaveBands_encode :: "obj \<Rightarrow> error + obj" where
  "ReconstructingFractionalOctaveBands_encode self =
     encode [''_num_fractions'', ''_freq_range'', ''_sampling_rate'',
             ''_overlap'', ''_slope'', ''_n_samples''] self"

definition ReconstructingFractionalOctaveBands_decode ::
  "synthesis \<Rightarrow> obj \<Rightarrow> (error + obj) \<times> warning list" where
  "ReconstructingFractionalOctaveBands_decode synthesis obj_dict =
     (case (obj_dict ''_num_fractions'', obj_dict ''_freq_range'', obj_dict ''_sampling_rate'',
            obj_dict ''_overlap'', obj_dict ''_slope'', obj_dict ''_n_samples'') of
        (Some a1, Some a2, Some a3, Some a4, Some a5, Some a6) \<Rightarrow>
          (case ReconstructingFractionalOctaveBands_init synthesis a1 a2 a3 a4 a5 a6 of
             (Inl e, ws) \<Rightarrow> (Inl e, ws)
           | (Inr obj, ws) \<Rightarrow> (Inr (obj ++ obj_dict), ws))
      | _ \<Rightarrow> (Inl KeyError, []))"

subsection \<open>Stand-ins for the external routines\<close>

text \<open>
  The statements hold for every \<open>butter\<close> and \<open>synthesis\<close>. To evaluate the model at a
  concrete input, the two parameters are instantiated with stand-ins. The stand-in for
  \<^verbatim>\<open>sgn.butter\<close> raises \<^verbatim>\<open>ValueError\<close> unless every critical frequency is strictly
  between 0 and 1, as the library does, and otherwise returns sections of the shape that
  the library returns: \<open>ceil(order/2)\<close> sections for a high-pass and \<open>order\<close> sections for
  a band-pass, and one section at order 0, each of six coefficients. The values of the
  coefficients play no role in any statement.
\<close>

definition butter_sections :: "int \<Rightarrow> btype \<Rightarrow> nat" where
  "butter_sections order bt =
     (case bt of
        Highpass \<Rightarrow> nat (max 1 ((order + 1) div 2))
      | Bandpass \<Rightarrow> nat (max 1 order))"

definition critical_ok :: "real list \<Rightarrow> bool" where
  "critical_ok Wn = list_all (\<lambda>w. 0 < w \<and> w < 1) Wn"

definition butter_stand_in :: butter where
  "butter_stand_in order Wn bt =
     (if critical_ok Wn then Inr (replicate (butter_sections order bt) [1, 0, 0, 1, 0, 0])
      else Inl ValueError)"

definition synthesis_stand_in :: synthesis where
  "synthesis_stand_in g n_samples sampling_rate = Inr g"

subsection \<open>The specification of the second order section design\<close>

text \<open>
  What the specification says of the design, to compare the code with: the bands whose
  normalised lower edge is at least 1 are dropped; a band whose normalised upper edge
  exceeds 1 is the high-pass design at the lower edge, padded with identity sections up to
  \<open>order\<close> sections; every other band is the band-pass design.
\<close>

definition spec_kept_bands :: "real list \<times> real list \<Rightarrow> real \<Rightarrow> (real \<times> real) list" where
  "spec_kept_bands f_crit sampling_rate =
     filter (\<lambda>Wn. \<not> 1 \<le> fst Wn)
       (map (\<lambda>(lo, up). (lo * 2 / sampling_rate, up * 2 / sampling_rate))
          (zip (fst f_crit) (snd f_crit)))"

definition spec_band :: "butter \<Rightarrow> int \<Rightarrow> real \<times> real \<Rightarrow> error + sos" where
  "spec_band butter order Wn =
     (if 1 < snd Wn then
        map_sum id (\<lambda>hp. hp @ replicate (nat order - length hp) [1, 0, 0, 1, 0, 0])
          (butter order [fst Wn] Highpass)
      else butter order [fst Wn, snd Wn] Bandpass)"


text \<open>
  The weaker assumption on one call: for the band \<open>Wn\<close> the call that the code makes
  returns sections of six coefficients, at most \<open>order\<close> of them for the high-pass, which
  is then padded, and \<open>order\<close> of them for the band-pass.
\<close>

definition band_designs :: "butter \<Rightarrow> int \<Rightarrow> real \<times> real \<Rightarrow> bool" where
  "band_designs butter order Wn =
     (if 1 < snd Wn then
        (\<exists>hp. butter order [fst Wn] Highpass = Inr hp \<and> int (length hp) \<le> order
           \<and> list_all (\<lambda>row. length row = 6) hp)
      else
        (\<exists>c. butter order [fst Wn, snd Wn] Bandpass = Inr c \<and> int (length c) = order
           \<and> list_all (\<lambda>row. length row = 6) c))"


subsection \<open>The specification of the magnitude responses\<close>

text \<open>
  What the specification says of the ramp of a band boundary with overlap \<open>P\<close>: the
  offset \<open>p\<close> of a bin from the bin of the lower cutoff runs from \<open>-P\<close> to \<open>P\<close>; it is
  scaled to \<open>[-1, 1]\<close>, mapped \<open>slope\<close> times by \<open>sin (pi / 2 * x)\<close>, and rescaled to
  \<open>[0, 1]\<close>.
\<close>

definition spec_phi :: "int \<Rightarrow> int \<Rightarrow> int \<Rightarrow> real" where
  "spec_phi slope P p = (((\<lambda>x. sin (pi / 2 * x)) ^^ nat slope) (of_int p / of_int P) + 1) / 2"

text \<open>
  The transition window of the band boundary \<open>b\<close>: the bins from \<open>k_1[b] - P[b]\<close> to
  \<open>k_1[b] + P[b]\<close>. The windows lie inside the array when every bin of every window is a
  bin of the array, and they are disjoint when no two of them share a bin. The band
  boundaries are the indices from 1 on.
\<close>

definition transition_window :: "int list \<Rightarrow> int list \<Rightarrow> nat \<Rightarrow> int set" where
  "transition_window k_1 P b = {k_1 ! b - P ! b .. k_1 ! b + P ! b}"

definition windows_inside :: "int list \<Rightarrow> int list \<Rightarrow> int \<Rightarrow> bool" where
  "windows_inside k_1 P n_bins =
     (\<forall>b \<in> {1 ..< length k_1}. transition_window k_1 P b \<subseteq> {0 ..< n_bins})"

definition windows_disjoint :: "int list \<Rightarrow> int list \<Rightarrow> bool" where
  "windows_disjoint k_1 P =
     (\<forall>b \<in> {1 ..< length k_1}. \<forall>c \<in> {1 ..< length k_1}.
        b \<noteq> c \<longrightarrow> transition_window k_1 P b \<inter> transition_window k_1 P c = {})"

text \<open>The sum over the bands of the values at one bin.\<close>

definition band_sum :: "real list list \<Rightarrow> nat \<Rightarrow> real" where
  "band_sum g i = sum_list (map (\<lambda>row. row ! i) g)"

text \<open>
  The magnitudes before squaring, in closed form. Band \<open>j\<close> fades in over the window of
  its own boundary and fades out over the window of the next boundary; the first band
  does not fade in and the last of the \<open>n\<close> bands does not fade out.
\<close>

definition fade_in :: "int list \<Rightarrow> int list \<Rightarrow> int \<Rightarrow> nat \<Rightarrow> nat \<Rightarrow> real" where
  "fade_in k_1 P slope j i =
     (if j = 0 then 1
      else if int i < k_1 ! j - P ! j then 0
      else if 0 < P ! j \<and> int i \<le> k_1 ! j + P ! j then
        sin (pi / 2 * spec_phi slope (P ! j) (int i - k_1 ! j))
      else 1)"

definition fade_out :: "int list \<Rightarrow> int list \<Rightarrow> int \<Rightarrow> nat \<Rightarrow> nat \<Rightarrow> nat \<Rightarrow> real" where
  "fade_out k_1 P slope n j i =
     (if n \<le> Suc j then 1
      else if k_1 ! Suc j + P ! Suc j \<le> int i then 0
      else if 0 < P ! Suc j \<and> k_1 ! Suc j - P ! Suc j \<le> int i then
        cos (pi / 2 * spec_phi slope (P ! Suc j) (int i - k_1 ! Suc j))
      else 1)"

text \<open>
  The array \<open>g\<close> has \<open>n\<close> rows of \<open>n_bins\<close> values, and the value of row \<open>j\<close> at bin \<open>i\<close>
  is \<open>f j i\<close>.
\<close>

definition rows_are :: "real list list \<Rightarrow> nat \<Rightarrow> nat \<Rightarrow> (nat \<Rightarrow> nat \<Rightarrow> real) \<Rightarrow> bool" where
  "rows_are g n n_bins f =
     (length g = n \<and> (\<forall>j < n. length (g ! j) = n_bins \<and> (\<forall>i < n_bins. g ! j ! i = f j i)))"

text \<open>
  The effect of the pass for the boundary \<open>b\<close> on the value of row \<open>j\<close> at bin \<open>i\<close>, and
  the values after the passes for the boundaries up to \<open>m\<close>: the bands before \<open>m\<close> are
  complete, band \<open>m\<close> has faded in, and the later bands are still one.
\<close>

definition step_magnitude ::
  "int list \<Rightarrow> int list \<Rightarrow> int \<Rightarrow> nat \<Rightarrow> (nat \<Rightarrow> nat \<Rightarrow> real) \<Rightarrow> nat \<Rightarrow> nat \<Rightarrow> real" where
  "step_magnitude k_1 P slope b f j i =
     (if j = b - 1 then
        (if k_1 ! b + P ! b \<le> int i then 0
         else if 0 < P ! b \<and> k_1 ! b - P ! b \<le> int i then
           cos (pi / 2 * spec_phi slope (P ! b) (int i - k_1 ! b))
         else f j i)
      else if j = b then
        (if int i < k_1 ! b - P ! b then 0
         else if 0 < P ! b \<and> int i \<le> k_1 ! b + P ! b then
           sin (pi / 2 * spec_phi slope (P ! b) (int i - k_1 ! b))
         else f j i)
      else f j i)"

definition magnitude_after ::
  "int list \<Rightarrow> int list \<Rightarrow> int \<Rightarrow> nat \<Rightarrow> nat \<Rightarrow> nat \<Rightarrow> nat \<Rightarrow> real" where
  "magnitude_after k_1 P slope n m j i =
     (if j < m then fade_in k_1 P slope j i * fade_out k_1 P slope n j i
      else if j = m then fade_in k_1 P slope j i
      else 1)"
section \<open>Properties\<close>

subsection \<open>The frequency grid\<close>

lemma mask_select_map: "mask_select (map p xs) (map h xs) = map h (filter p xs)"
  by (induction xs) (simp_all add: mask_select_def)

lemma mask_select_map_id: "mask_select (map p xs) xs = filter p xs"
  using mask_select_map [where h = "\<lambda>x. x" and p = p and xs = xs] by simp

lemma octave_ratio_gt_1: "1 < octave_ratio"
  unfolding octave_ratio_def by simp

lemma octave_ratio_pos: "0 < octave_ratio"
  using octave_ratio_gt_1 by simp

text \<open>
  Claim C7. \<^verbatim>\<open>fractional_octave_frequencies(1, (20, 20000))\<close> returns the ten nominal octave
  frequencies, \<^verbatim>\<open>fractional_octave_frequencies(3, (20, 20000))\<close> the thirty nominal third-octave
  frequencies, and \<^verbatim>\<open>fractional_octave_frequencies(1, (100, 4000))\<close> the nominal octave
  frequencies from 125 to 4000: the table entries that lie in the range, limits included.
\<close>

theorem nominal_table_fidelity:
  "nominal_of (fractional_octave_frequencies 1 [20, 20000] False) =
     Inr (Some [31.5, 63, 125, 250, 500, 1000, 2000, 4000, 8000, 16000])
   \<and> nominal_of (fractional_octave_frequencies 3 [20, 20000] False) =
     Inr (Some [25, 31.5, 40, 50, 63, 80, 100, 125, 160,
                200, 250, 315, 400, 500, 630, 800, 1000,
                1250, 1600, 2000, 2500, 3150, 4000, 5000,
                6300, 8000, 10000, 12500, 16000, 20000])
   \<and> nominal_of (fractional_octave_frequencies 1 [100, 4000] False) =
     Inr (Some [125, 250, 500, 1000, 2000, 4000])"
  by (simp add: nominal_of_def fractional_octave_frequencies_def center_frequencies_def
      center_frequencies_fractional_octaves_iec_def mask_select_map_id
      nominal_octaves_def nominal_thirds_def Let_def)

lemma center_frequencies_pos:
  assumes "center_frequencies num_fractions low high = Inr (nominal, exact)"
  shows "\<forall>f \<in> set exact. 0 < f"
proof (cases "num_fractions = 1 \<or> num_fractions = 3")
  case True
  then show ?thesis
    using assms octave_ratio_pos
    by (auto simp: center_frequencies_def center_frequencies_fractional_octaves_iec_def
        mask_select_map iec_exact_odd_def iec_exact_even_def Let_def split: if_splits)
next
  case False
  then show ?thesis
    using assms
    by (auto simp: center_frequencies_def exact_center_frequencies_fractional_octaves_def
        Let_def split: if_splits sum.splits)
qed

lemma center_frequencies_total:
  assumes "num_fractions \<noteq> 0" and "num_fractions \<in> {1, 3} \<or> 0 < low" and "low \<le> high"
  shows "\<exists>nominal exact. center_frequencies num_fractions low high = Inr (nominal, exact)"
  using assms
  by (auto simp: center_frequencies_def center_frequencies_fractional_octaves_iec_def
      exact_center_frequencies_fractional_octaves_def Let_def)

lemma cutoff_lower_lt:
  assumes "1 \<le> (n::int)" and "0 < (f::real)"
  shows "f * octave_ratio powr (- 1 / 2 / of_int n) < f"
proof -
  have "octave_ratio powr (- 1 / 2 / of_int n) < octave_ratio powr 0"
    using assms octave_ratio_gt_1 by (intro powr_less_mono) (auto simp: field_simps)
  then show ?thesis using assms octave_ratio_pos by simp
qed

lemma cutoff_upper_gt:
  assumes "1 \<le> (n::int)" and "0 < (f::real)"
  shows "f < f * octave_ratio powr (1 / 2 / of_int n)"
proof -
  have "octave_ratio powr 0 < octave_ratio powr (1 / 2 / of_int n)"
    using assms octave_ratio_gt_1 by (intro powr_less_mono) (auto simp: field_simps)
  then show ?thesis using assms octave_ratio_pos by simp
qed

lemma cutoff_geometric_mean:
  assumes "0 < (f::real)"
  shows "f = sqrt ((f * octave_ratio powr (- 1 / 2 / of_int n)) * (f * octave_ratio powr (1 / 2 / of_int n)))"
proof -
  have "octave_ratio powr (- 1 / 2 / of_int n) * octave_ratio powr (1 / 2 / of_int n) = 1"
    using octave_ratio_pos by (simp add: powr_add [symmetric])
  then have "(f * octave_ratio powr (- 1 / 2 / of_int n)) * (f * octave_ratio powr (1 / 2 / of_int n)) = f * f"
    by (simp only: mult.assoc mult.left_commute [of _ f] mult_1_right)
  moreover have "sqrt (f * f) = f"
    using assms by simp
  ultimately show ?thesis by (simp only:)
qed

text \<open>
  Claim C6. For \<^verbatim>\<open>num_fractions >= 1\<close> and a valid range, the call with
  \<^verbatim>\<open>return_cutoff=True\<close> returns, and for every band the lower cutoff is the exact center
  frequency times \<open>G\<close> to the power \<open>-1/(2 num_fractions)\<close>, the upper cutoff is the exact
  center frequency times \<open>G\<close> to the power \<open>1/(2 num_fractions)\<close>, with \<open>G = 10^(3/10)\<close>; the
  exact frequency lies strictly between the two and is their geometric mean. A range is
  valid when its lower limit is positive, which the branch of the standard fractions 1 and
  3 does not need.
\<close>

theorem cutoff_symmetry:
  assumes "1 \<le> num_fractions" and "num_fractions \<in> {1, 3} \<or> 0 < low" and "low \<le> high"
  shows "\<exists>nominal exact lower upper.
           fractional_octave_frequencies num_fractions [low, high] True =
             Inr (nominal, exact, Some (lower, upper))
           \<and> length lower = length exact \<and> length upper = length exact
           \<and> (\<forall>i < length exact.
                 lower ! i = exact ! i * (10 powr (3 / 10)) powr (- 1 / (2 * of_int num_fractions))
               \<and> upper ! i = exact ! i * (10 powr (3 / 10)) powr (1 / (2 * of_int num_fractions))
               \<and> lower ! i < exact ! i \<and> exact ! i < upper ! i
               \<and> exact ! i = sqrt (lower ! i * upper ! i))"
proof -
  from assms obtain nominal exact where
    cf: "center_frequencies num_fractions low high = Inr (nominal, exact)"
    using center_frequencies_total [of num_fractions low high] by auto
  have pos: "\<forall>f \<in> set exact. 0 < f"
    using center_frequencies_pos [OF cf] .
  define lower where "lower = map (\<lambda>f. f * octave_ratio powr (- 1 / 2 / of_int num_fractions)) exact"
  define upper where "upper = map (\<lambda>f. f * octave_ratio powr (1 / 2 / of_int num_fractions)) exact"
  have res: "fractional_octave_frequencies num_fractions [low, high] True =
      Inr (nominal, exact, Some (lower, upper))"
    using assms cf by (simp add: fractional_octave_frequencies_def lower_def upper_def)
  have "lower ! i = exact ! i * (10 powr (3 / 10)) powr (- 1 / (2 * of_int num_fractions))
      \<and> upper ! i = exact ! i * (10 powr (3 / 10)) powr (1 / (2 * of_int num_fractions))
      \<and> lower ! i < exact ! i \<and> exact ! i < upper ! i
      \<and> exact ! i = sqrt (lower ! i * upper ! i)" if "i < length exact" for i
  proof -
    have p: "0 < exact ! i" using pos that by simp
    show ?thesis
      using that cutoff_lower_lt [OF assms(1) p] cutoff_upper_gt [OF assms(1) p]
        cutoff_geometric_mean [OF p, of num_fractions]
      by (simp add: lower_def upper_def octave_ratio_def)
  qed
  then show ?thesis using res by (auto simp: lower_def upper_def)
qed


theorem cutoff_symmetry_witness:
  "(1::int) \<le> 1 \<and> (20::real) \<le> 20000
   \<and> (\<exists>nominal exact lower upper.
           fractional_octave_frequencies 1 [20, 20000] True =
             Inr (nominal, exact, Some (lower, upper))
           \<and> length lower = length exact \<and> length upper = length exact
           \<and> (\<forall>i < length exact.
                 lower ! i = exact ! i * (10 powr (3 / 10)) powr (- 1 / (2 * of_int 1))
               \<and> upper ! i = exact ! i * (10 powr (3 / 10)) powr (1 / (2 * of_int 1))
               \<and> lower ! i < exact ! i \<and> exact ! i < upper ! i
               \<and> exact ! i = sqrt (lower ! i * upper ! i)))"
  using cutoff_symmetry [of 1 20 20000] by simp

text \<open>
  Claim C8, as amended. For \<^verbatim>\<open>num_fractions\<close> other than 0, 1 and 3 and a range
  \<open>0 < low \<le> high\<close>, the exact center frequencies are \<open>1000 * 2^(i/num_fractions)\<close> for
  the integers \<open>i\<close> from \<open>-round(num_fractions * log2(1000/low))\<close> to
  \<open>round(num_fractions * log2(high/1000))\<close>, and the nominal output is \<^verbatim>\<open>None\<close>: it is
  not an empty sequence.
\<close>

theorem exact_grid_log_spacing:
  assumes "num_fractions \<notin> {1, 3}" and "num_fractions \<noteq> 0" and "0 < low" and "low \<le> high"
  shows "\<exists>cutoff.
           fractional_octave_frequencies num_fractions [low, high] return_cutoff =
             Inr (None,
                  map (\<lambda>i. 1000 * 2 powr (of_int i / of_int num_fractions))
                    [- np_round (of_int num_fractions * log 2 (1000 / low)) ..
                       np_round (of_int num_fractions * log 2 (high / 1000))],
                  cutoff)"
  using assms
  by (simp add: fractional_octave_frequencies_def center_frequencies_def
      exact_center_frequencies_fractional_octaves_def Let_def)

theorem exact_grid_log_spacing_witness:
  "(2::int) \<notin> {1, 3} \<and> (2::int) \<noteq> 0 \<and> (0::real) < 500 \<and> (500::real) \<le> 2000
   \<and> (\<exists>cutoff.
           fractional_octave_frequencies 2 [500, 2000] False =
             Inr (None,
                  map (\<lambda>i. 1000 * 2 powr (of_int i / of_int 2))
                    [- np_round (of_int 2 * log 2 (1000 / 500)) ..
                       np_round (of_int 2 * log 2 (2000 / 1000))],
                  cutoff))"
  using exact_grid_log_spacing [of 2 500 2000 False] by simp

text \<open>
  The nominal output for two fractions per octave is \<^verbatim>\<open>None\<close>, not the empty sequence
  that claim C8 states.
\<close>

theorem nominal_not_empty_sequence:
  "nominal_of (fractional_octave_frequencies 2 [500, 2000] False) = Inr None
   \<and> nominal_of (fractional_octave_frequencies 2 [500, 2000] False) \<noteq> Inr (Some [])"
  by (simp add: nominal_of_def fractional_octave_frequencies_def center_frequencies_def
      exact_center_frequencies_fractional_octaves_def Let_def)

subsection \<open>Bounds on the octave ratio\<close>

lemma ten_powr_power: "0 < n \<Longrightarrow> (10 powr (real m / real n)) ^ n = (10::real) ^ m"
proof -
  assume n: "0 < n"
  have "(10 powr (real m / real n)) ^ n = (10 powr (real m / real n)) powr (real n)"
    by (simp add: powr_realpow)
  also have "\<dots> = 10 powr (real m / real n * real n)"
    by (simp add: powr_powr)
  also have "\<dots> = 10 powr (real m)"
    using n by simp
  also have "\<dots> = 10 ^ m"
    by (simp add: powr_realpow)
  finally show ?thesis .
qed

lemma ten_powr_gt:
  assumes "0 < n" and "a ^ n < (10::real) ^ m"
  shows "a < 10 powr (real m / real n)"
proof -
  have "a ^ n < (10 powr (real m / real n)) ^ n"
    using assms ten_powr_power [of n m] by simp
  then show ?thesis
    by (rule power_less_imp_less_base) simp
qed

lemma ten_powr_lt:
  assumes "0 < n" and "(10::real) ^ m < a ^ n" and "0 \<le> a"
  shows "10 powr (real m / real n) < a"
proof -
  have "(10 powr (real m / real n)) ^ n < a ^ n"
    using assms ten_powr_power [of n m] by simp
  then show ?thesis
    using assms(3) by (rule power_less_imp_less_base)
qed

lemma octave_ratio_half: "octave_ratio powr (1 / 2) = 10 powr (real 3 / real 20)"
  by (simp add: octave_ratio_def powr_powr)

lemma octave_ratio_half_bounds:
  "141 / 100 < octave_ratio powr (1 / 2)" "octave_ratio powr (1 / 2) < 142 / 100"
proof -
  show "141 / 100 < octave_ratio powr (1 / 2)"
    unfolding octave_ratio_half by (rule ten_powr_gt) (simp_all add: power_divide)
  show "octave_ratio powr (1 / 2) < 142 / 100"
    unfolding octave_ratio_half by (rule ten_powr_lt) (simp_all add: power_divide)
qed

lemma octave_ratio_minus_half: "octave_ratio powr (- 1 / 2) = 1 / octave_ratio powr (1 / 2)"
  using powr_minus_divide [of octave_ratio "1 / 2"] by simp

lemma octave_ratio_minus_half_bounds:
  "70 / 100 < octave_ratio powr (- 1 / 2)" "octave_ratio powr (- 1 / 2) < 71 / 100"
proof -
  have pos: "0 < octave_ratio powr (1 / 2)"
    using octave_ratio_half_bounds(1) by linarith
  show "70 / 100 < octave_ratio powr (- 1 / 2)"
    unfolding octave_ratio_minus_half
    using octave_ratio_half_bounds(2) pos by (simp add: pos_less_divide_eq)
  show "octave_ratio powr (- 1 / 2) < 71 / 100"
    unfolding octave_ratio_minus_half
    using octave_ratio_half_bounds(1) pos by (simp add: pos_divide_less_eq)
qed

lemma np_round_0: "np_round 0 = 0"
  by (simp add: np_round_def)

lemma iec_exact_1000: "iec_exact_odd 1 1000 = 1000"
  using octave_ratio_pos by (simp add: iec_exact_odd_def np_round_0)

lemma grid_1000:
  "fractional_octave_frequencies 1 [1000, 1100] True =
     Inr (Some [1000], [1000],
          Some ([1000 * octave_ratio powr (- 1 / 2)], [1000 * octave_ratio powr (1 / 2)]))"
  by (simp add: fractional_octave_frequencies_def center_frequencies_def
      center_frequencies_fractional_octaves_iec_def mask_select_def
      nominal_octaves_def iec_exact_1000 Let_def)

subsection \<open>Errors\<close>

lemma fof_malformed:
  "length freq_range \<noteq> 2 \<or> freq_range ! 0 > freq_range ! 1 \<Longrightarrow>
     fractional_octave_frequencies num_fractions freq_range return_cutoff = Inl ValueError"
  by (auto simp: fractional_octave_frequencies_def)

lemma fof_returns:
  assumes "num_fractions \<noteq> 0" and "length freq_range = 2"
    and "freq_range ! 0 \<le> freq_range ! 1"
    and "num_fractions \<in> {1, 3} \<or> 0 < freq_range ! 0"
  shows "\<exists>grid. fractional_octave_frequencies num_fractions freq_range return_cutoff = Inr grid"
proof -
  obtain nominal exact where
    "center_frequencies num_fractions (freq_range ! 0) (freq_range ! 1) = Inr (nominal, exact)"
    using center_frequencies_total [OF assms(1) assms(4) assms(3)] by auto
  then show ?thesis
    using assms by (simp add: fractional_octave_frequencies_def Let_def)
qed

text \<open>
  Claim C9, as amended. \<^verbatim>\<open>fractional_octave_frequencies\<close> raises \<^verbatim>\<open>ValueError\<close> whenever the
  range does not have exactly two entries or its first entry is greater than its second.
  For a nonzero number of fractions and a range \<open>low \<le> high\<close> (with \<open>0 < low\<close> unless the
  number of fractions is 1 or 3) it returns: no error is raised for a number of fractions
  without nominal frequencies. The constructor of \<^verbatim>\<open>ReconstructingFractionalOctaveBands\<close>
  raises \<^verbatim>\<open>ValueError\<close> whenever the overlap is outside \<open>[0, 1]\<close> or the slope is not a
  non-negative \<^verbatim>\<open>int\<close>, and it passes on an error of \<^verbatim>\<open>fractional_octave_frequencies\<close>. In
  each case the result is the error alone, with no object and no warning.
\<close>

theorem validation_errors:
  "(length freq_range \<noteq> 2 \<or> freq_range ! 0 > freq_range ! 1 \<longrightarrow>
      fractional_octave_frequencies num_fractions freq_range return_cutoff = Inl ValueError)
   \<and> (num_fractions \<noteq> 0 \<and> length freq_range = 2 \<and> freq_range ! 0 \<le> freq_range ! 1
        \<and> (num_fractions \<in> {1, 3} \<or> 0 < freq_range ! 0) \<longrightarrow>
      (\<exists>grid. fractional_octave_frequencies num_fractions freq_range return_cutoff = Inr grid))
   \<and> (number overlap = Some ov \<and> (ov < 0 \<or> ov > 1) \<longrightarrow>
      ReconstructingFractionalOctaveBands_init synthesis fractions rng overlap slope
        n_samples sampling_rate = (Inl ValueError, []))
   \<and> (number overlap = Some ov \<and> \<not> slope_is_valid slope \<longrightarrow>
      ReconstructingFractionalOctaveBands_init synthesis fractions rng overlap slope
        n_samples sampling_rate = (Inl ValueError, []))
   \<and> (number overlap = Some ov \<and> 0 \<le> ov \<and> ov \<le> 1 \<and> slope_is_valid slope
        \<and> asarray rng = Inr freq_range
        \<and> fractional_octave_frequencies num_fractions freq_range True = Inl e \<longrightarrow>
      ReconstructingFractionalOctaveBands_init synthesis (PyInt num_fractions) rng overlap slope
        n_samples sampling_rate = (Inl e, []))"
proof (intro conjI impI)
  assume "length freq_range \<noteq> 2 \<or> freq_range ! 0 > freq_range ! 1"
  then show "fractional_octave_frequencies num_fractions freq_range return_cutoff = Inl ValueError"
    by (rule fof_malformed)
next
  assume "num_fractions \<noteq> 0 \<and> length freq_range = 2 \<and> freq_range ! 0 \<le> freq_range ! 1
        \<and> (num_fractions \<in> {1, 3} \<or> 0 < freq_range ! 0)"
  then show "\<exists>grid. fractional_octave_frequencies num_fractions freq_range return_cutoff = Inr grid"
    using fof_returns by blast
next
  assume "number overlap = Some ov \<and> (ov < 0 \<or> ov > 1)"
  then show "ReconstructingFractionalOctaveBands_init synthesis fractions rng overlap slope
        n_samples sampling_rate = (Inl ValueError, [])"
    by (auto simp: ReconstructingFractionalOctaveBands_init_def)
next
  assume "number overlap = Some ov \<and> \<not> slope_is_valid slope"
  then show "ReconstructingFractionalOctaveBands_init synthesis fractions rng overlap slope
        n_samples sampling_rate = (Inl ValueError, [])"
    by (auto simp: ReconstructingFractionalOctaveBands_init_def)
next
  assume "number overlap = Some ov \<and> 0 \<le> ov \<and> ov \<le> 1 \<and> slope_is_valid slope
        \<and> asarray rng = Inr freq_range
        \<and> fractional_octave_frequencies num_fractions freq_range True = Inl e"
  then show "ReconstructingFractionalOctaveBands_init synthesis (PyInt num_fractions) rng overlap slope
        n_samples sampling_rate = (Inl e, [])"
    by (auto simp: ReconstructingFractionalOctaveBands_init_def)
qed

theorem validation_errors_witness:
  "fractional_octave_frequencies 1 [8000, 100] False = Inl ValueError
   \<and> (\<exists>grid. fractional_octave_frequencies 5 [20, 20000] False = Inr grid)
   \<and> ReconstructingFractionalOctaveBands_init synthesis_stand_in (PyInt 1)
        (PyTuple [PyInt 63, PyInt 16000]) (PyFloat 1.5) (PyInt 0) (PyInt 4096) (PyInt 44100) =
      (Inl ValueError, [])
   \<and> ReconstructingFractionalOctaveBands_init synthesis_stand_in (PyInt 1)
        (PyTuple [PyInt 63, PyInt 16000]) (PyInt 1) (PyFloat 0.5) (PyInt 4096) (PyInt 44100) =
      (Inl ValueError, [])
   \<and> ReconstructingFractionalOctaveBands_init synthesis_stand_in (PyInt 1)
        (PyTuple [PyInt 1, PyInt 2, PyInt 3]) (PyInt 1) (PyInt 0) (PyInt 4096) (PyInt 44100) =
      (Inl ValueError, [])"
proof -
  have a: "fractional_octave_frequencies 1 [1, 2, 3] True = Inl ValueError"
    by (simp add: fractional_octave_frequencies_def)
  show ?thesis
    using validation_errors [where freq_range = "[8000, 100]" and num_fractions = 1
        and return_cutoff = False and overlap = "PyFloat 1.5" and ov = "1.5"
        and synthesis = synthesis_stand_in and fractions = "PyInt 1"
        and rng = "PyTuple [PyInt 63, PyInt 16000]" and slope = "PyInt 0"
        and n_samples = "PyInt 4096" and sampling_rate = "PyInt 44100" and e = ValueError]
      validation_errors [where freq_range = "[20, 20000]" and num_fractions = 5
        and return_cutoff = False and overlap = "PyInt 1" and ov = 1
        and synthesis = synthesis_stand_in and fractions = "PyInt 1"
        and rng = "PyTuple [PyInt 63, PyInt 16000]" and slope = "PyFloat 0.5"
        and n_samples = "PyInt 4096" and sampling_rate = "PyInt 44100" and e = ValueError]
      validation_errors [where freq_range = "[1, 2, 3]" and num_fractions = 1
        and return_cutoff = True and overlap = "PyInt 1" and ov = 1
        and synthesis = synthesis_stand_in and fractions = "PyInt 1"
        and rng = "PyTuple [PyInt 1, PyInt 2, PyInt 3]" and slope = "PyInt 0"
        and n_samples = "PyInt 4096" and sampling_rate = "PyInt 44100" and e = ValueError] a
    by (simp add: slope_is_valid_def asarray_def)
qed

text \<open>
  Against claim C9 as stated: a well-formed range with \<^verbatim>\<open>num_fractions = 0\<close> raises
  \<^verbatim>\<open>ZeroDivisionError\<close>; five fractions per octave raise nothing and give the nominal
  output \<^verbatim>\<open>None\<close>; and the constructor of \<^verbatim>\<open>ReconstructingFractionalOctaveBands\<close> raises on
  the range \<^verbatim>\<open>(8000, 100)\<close> although the overlap 1 and the slope 0 are valid.
\<close>

theorem errors_beyond_validation:
  "fractional_octave_frequencies 0 [20, 20000] True = Inl ZeroDivisionError
   \<and> nominal_of (fractional_octave_frequencies 5 [20, 20000] False) = Inr None
   \<and> ReconstructingFractionalOctaveBands_init synthesis_stand_in (PyInt 1)
        (PyTuple [PyInt 8000, PyInt 100]) (PyInt 1) (PyInt 0) (PyInt 4096) (PyInt 44100) =
      (Inl ValueError, [])"
  by (simp add: fractional_octave_frequencies_def center_frequencies_def
      exact_center_frequencies_fractional_octaves_def nominal_of_def Let_def
      ReconstructingFractionalOctaveBands_init_def slope_is_valid_def asarray_def)

subsection \<open>Serialization\<close>

text \<open>
  Claim C4. Decoding the encoded form of a filter bank should succeed and give back an
  equal object. It does not: \<^verbatim>\<open>_decode\<close> passes the stored parameters to the constructor
  by position in an order that is not the order of the constructor's parameters. For the
  encoded form of \<^verbatim>\<open>FractionalOctaveBands()\<close> with its default arguments, the order lands in
  the place of \<^verbatim>\<open>freq_range\<close>, and for the encoded form of
  \<^verbatim>\<open>ReconstructingFractionalOctaveBands()\<close> the sampling rate lands in the place of
  \<^verbatim>\<open>overlap\<close>: both decodings raise \<^verbatim>\<open>ValueError\<close>.
\<close>

theorem decode_of_encode_raises:
  "FractionalOctaveBands_encode
       (x(''_num_fractions'' \<mapsto> PyInt 1, ''_sampling_rate'' \<mapsto> PyInt 44100,
          ''_freq_range'' \<mapsto> PyTuple [PyFloat 20, PyFloat 20000], ''_order'' \<mapsto> PyInt 14)) =
     Inr [''_num_fractions'' \<mapsto> PyInt 1, ''_sampling_rate'' \<mapsto> PyInt 44100,
          ''_freq_range'' \<mapsto> PyTuple [PyFloat 20, PyFloat 20000], ''_order'' \<mapsto> PyInt 14]
   \<and> FractionalOctaveBands_decode butter
       [''_num_fractions'' \<mapsto> PyInt 1, ''_sampling_rate'' \<mapsto> PyInt 44100,
        ''_freq_range'' \<mapsto> PyTuple [PyFloat 20, PyFloat 20000], ''_order'' \<mapsto> PyInt 14] =
     (Inl ValueError, [])
   \<and> ReconstructingFractionalOctaveBands_encode
       (y(''_num_fractions'' \<mapsto> PyInt 1, ''_freq_range'' \<mapsto> PyTuple [PyInt 63, PyInt 16000],
          ''_overlap'' \<mapsto> PyInt 1, ''_slope'' \<mapsto> PyInt 0,
          ''_n_samples'' \<mapsto> PyInt 4096, ''_sampling_rate'' \<mapsto> PyInt 44100)) =
     Inr [''_num_fractions'' \<mapsto> PyInt 1, ''_freq_range'' \<mapsto> PyTuple [PyInt 63, PyInt 16000],
          ''_overlap'' \<mapsto> PyInt 1, ''_slope'' \<mapsto> PyInt 0,
          ''_n_samples'' \<mapsto> PyInt 4096, ''_sampling_rate'' \<mapsto> PyInt 44100]
   \<and> ReconstructingFractionalOctaveBands_decode synthesis
       [''_num_fractions'' \<mapsto> PyInt 1, ''_freq_range'' \<mapsto> PyTuple [PyInt 63, PyInt 16000],
        ''_overlap'' \<mapsto> PyInt 1, ''_slope'' \<mapsto> PyInt 0,
        ''_n_samples'' \<mapsto> PyInt 4096, ''_sampling_rate'' \<mapsto> PyInt 44100] =
     (Inl ValueError, [])"
proof (intro conjI)
  show "FractionalOctaveBands_encode
       (x(''_num_fractions'' \<mapsto> PyInt 1, ''_sampling_rate'' \<mapsto> PyInt 44100,
          ''_freq_range'' \<mapsto> PyTuple [PyFloat 20, PyFloat 20000], ''_order'' \<mapsto> PyInt 14)) =
     Inr [''_num_fractions'' \<mapsto> PyInt 1, ''_sampling_rate'' \<mapsto> PyInt 44100,
          ''_freq_range'' \<mapsto> PyTuple [PyFloat 20, PyFloat 20000], ''_order'' \<mapsto> PyInt 14]"
    by (auto simp: FractionalOctaveBands_encode_def encode_def restrict_map_def fun_eq_iff)
  show "FractionalOctaveBands_decode butter
       [''_num_fractions'' \<mapsto> PyInt 1, ''_sampling_rate'' \<mapsto> PyInt 44100,
        ''_freq_range'' \<mapsto> PyTuple [PyFloat 20, PyFloat 20000], ''_order'' \<mapsto> PyInt 14] =
     (Inl ValueError, [])"
    by (simp add: FractionalOctaveBands_decode_def FractionalOctaveBands_init_def
        asarray_def fractional_octave_frequencies_def)
  show "ReconstructingFractionalOctaveBands_encode
       (y(''_num_fractions'' \<mapsto> PyInt 1, ''_freq_range'' \<mapsto> PyTuple [PyInt 63, PyInt 16000],
          ''_overlap'' \<mapsto> PyInt 1, ''_slope'' \<mapsto> PyInt 0,
          ''_n_samples'' \<mapsto> PyInt 4096, ''_sampling_rate'' \<mapsto> PyInt 44100)) =
     Inr [''_num_fractions'' \<mapsto> PyInt 1, ''_freq_range'' \<mapsto> PyTuple [PyInt 63, PyInt 16000],
          ''_overlap'' \<mapsto> PyInt 1, ''_slope'' \<mapsto> PyInt 0,
          ''_n_samples'' \<mapsto> PyInt 4096, ''_sampling_rate'' \<mapsto> PyInt 44100]"
    by (auto simp: ReconstructingFractionalOctaveBands_encode_def encode_def restrict_map_def
        fun_eq_iff)
  show "ReconstructingFractionalOctaveBands_decode synthesis
       [''_num_fractions'' \<mapsto> PyInt 1, ''_freq_range'' \<mapsto> PyTuple [PyInt 63, PyInt 16000],
        ''_overlap'' \<mapsto> PyInt 1, ''_slope'' \<mapsto> PyInt 0,
        ''_n_samples'' \<mapsto> PyInt 4096, ''_sampling_rate'' \<mapsto> PyInt 44100] =
     (Inl ValueError, [])"
    by (simp add: ReconstructingFractionalOctaveBands_decode_def
        ReconstructingFractionalOctaveBands_init_def)
qed

subsection \<open>The second order section design\<close>

lemma fof_cutoff_lengths:
  assumes "fractional_octave_frequencies num_fractions freq_range True =
             Inr (nominal, exact, Some f_crit)"
  shows "length (fst f_crit) = length exact \<and> length (snd f_crit) = length exact"
  using assms
  by (auto simp: fractional_octave_frequencies_def Let_def split: if_splits sum.splits)

lemma kept_edges_spec:
  assumes "sampling_rate \<noteq> 0"
  shows "kept_edges f_crit sampling_rate = spec_kept_bands f_crit sampling_rate"
proof -
  let ?Wns = "normalized_edges f_crit sampling_rate"
  have n: "?Wns = map (\<lambda>(lo, up). (lo * 2 / sampling_rate, up * 2 / sampling_rate))
          (zip (fst f_crit) (snd f_crit))"
    by (simp add: normalized_edges_def)
  have sk: "mask_skip f_crit sampling_rate = map (\<lambda>Wn. 1 \<le> fst Wn) ?Wns"
    using assms by (simp add: mask_skip_def)
  have sel: "mask_select (map Not (map (\<lambda>Wn. 1 \<le> fst Wn) ?Wns)) ?Wns
      = filter (\<lambda>Wn. \<not> 1 \<le> fst Wn) ?Wns"
    using mask_select_map_id [of "\<lambda>Wn. \<not> 1 \<le> fst Wn" ?Wns] by (simp add: comp_def)
  have none: "filter (\<lambda>Wn. \<not> 1 \<le> fst Wn) ?Wns = ?Wns"
    if "\<not> list_ex (\<lambda>b. b) (map (\<lambda>Wn. 1 \<le> fst Wn) ?Wns)"
    using that by (auto simp: list_ex_iff filter_id_conv)
  show ?thesis
    unfolding kept_edges_def Let_def sk spec_kept_bands_def n [symmetric]
    using sel none by auto
qed

lemma skip_iff_fewer:
  assumes "sampling_rate \<noteq> 0"
  shows "list_ex (\<lambda>b. b) (mask_skip f_crit sampling_rate) \<longleftrightarrow>
         length (spec_kept_bands f_crit sampling_rate) < min (length (fst f_crit)) (length (snd f_crit))"
proof -
  let ?Wns = "map (\<lambda>(lo, up). (lo * 2 / sampling_rate, up * 2 / sampling_rate))
          (zip (fst f_crit) (snd f_crit))"
  have len: "length ?Wns = min (length (fst f_crit)) (length (snd f_crit))" by simp
  have sk: "mask_skip f_crit sampling_rate = map (\<lambda>Wn. 1 \<le> fst Wn) ?Wns"
    using assms by (simp add: mask_skip_def normalized_edges_def)
  have "length (filter (\<lambda>Wn. \<not> 1 \<le> fst Wn) ?Wns) < length ?Wns \<longleftrightarrow>
        (\<exists>Wn \<in> set ?Wns. 1 \<le> fst Wn)"
    using length_filter_less [of _ ?Wns "\<lambda>Wn. \<not> 1 \<le> fst Wn"]
      filter_id_conv [of "\<lambda>Wn. \<not> 1 \<le> fst Wn" ?Wns]
    by (metis (mono_tags, lifting) less_irrefl)
  then show ?thesis
    unfolding sk spec_kept_bands_def len [symmetric] by (auto simp: list_ex_iff)
qed

lemma assign_band_shape:
  assumes "list_all (\<lambda>row. length row = 6) c" and "length c = nat order"
  shows "assign_band order c = Inr c"
  using assms by (simp add: assign_band_def broadcast_axis_def)

lemma design_band_spec:
  assumes "band_designs butter order Wn" and "0 \<le> order"
  shows "\<exists>band ws. design_band butter order freqs_upper idx Wn = (Inr band, ws)
           \<and> spec_band butter order Wn = Inr band
           \<and> length band = nat order \<and> list_all (\<lambda>row. length row = 6) band
           \<and> (1 < snd Wn \<longleftrightarrow> ws \<noteq> []) \<and> SkippingBands \<notin> set ws"
proof (cases "1 < snd Wn")
  case True
  with assms(1) obtain hp where hp: "butter order [fst Wn] Highpass = Inr hp"
    "int (length hp) \<le> order" "list_all (\<lambda>row. length row = 6) hp"
    unfolding band_designs_def by auto
  have le: "length hp \<le> nat order"
    using hp(2) by simp
  let ?band = "hp @ replicate (nat order - length hp) [1, 0, 0, 1, 0, 0]"
  have ext: "extend_sos_coefficients hp order = Inr ?band"
    using hp(2) by (simp add: extend_sos_coefficients_def nat_diff_distrib')
  have shape: "length ?band = nat order" "list_all (\<lambda>row. length row = 6) ?band"
    using le hp(3) by (auto simp: list_all_iff)
  have "assign_band order ?band = Inr ?band"
    using assign_band_shape [OF shape(2) shape(1)] .
  then show ?thesis
    using True hp(1) ext shape by (simp add: design_band_def spec_band_def)
next
  case False
  with assms(1) obtain c where c: "butter order [fst Wn, snd Wn] Bandpass = Inr c"
    "int (length c) = order" "list_all (\<lambda>row. length row = 6) c"
    unfolding band_designs_def by auto
  have len: "length c = nat order"
    using c(2) by simp
  have "assign_band order c = Inr c"
    using assign_band_shape [OF c(3) len] .
  then show ?thesis
    using False c(1,3) len by (simp add: design_band_def spec_band_def)
qed

lemma design_bands_spec:
  assumes "\<forall>Wn \<in> set Wns. band_designs butter order Wn" and "0 \<le> order"
  shows "\<exists>sos ws. design_bands butter order freqs_upper idx Wns = (Inr sos, ws)
           \<and> map Inr sos = map (spec_band butter order) Wns
           \<and> list_all (\<lambda>band. length band = nat order \<and> list_all (\<lambda>row. length row = 6) band) sos
           \<and> ((\<exists>Wn \<in> set Wns. 1 < snd Wn) \<longleftrightarrow> ws \<noteq> [])
           \<and> SkippingBands \<notin> set ws"
  using assms(1)
proof (induction Wns arbitrary: idx)
  case Nil
  then show ?case by simp
next
  case (Cons Wn Wns)
  have bd: "band_designs butter order Wn"
    using Cons.prems by simp
  obtain band ws where b: "design_band butter order freqs_upper idx Wn = (Inr band, ws)"
    "spec_band butter order Wn = Inr band" "length band = nat order"
    "list_all (\<lambda>row. length row = 6) band" "1 < snd Wn \<longleftrightarrow> ws \<noteq> []"
    "SkippingBands \<notin> set ws"
    using design_band_spec [OF bd assms(2), of freqs_upper idx] by auto
  have rest: "\<forall>Wn \<in> set Wns. band_designs butter order Wn"
    using Cons.prems by simp
  obtain sos ws' where r: "design_bands butter order freqs_upper (Suc idx) Wns = (Inr sos, ws')"
    "map Inr sos = map (spec_band butter order) Wns"
    "list_all (\<lambda>band. length band = nat order \<and> list_all (\<lambda>row. length row = 6) band) sos"
    "(\<exists>Wn \<in> set Wns. 1 < snd Wn) \<longleftrightarrow> ws' \<noteq> []" "SkippingBands \<notin> set ws'"
    using Cons.IH [OF rest, of "Suc idx"] by auto
  show ?case
    using b r by auto
qed

lemma sos_coefficients_spec:
  assumes "\<forall>Wn \<in> set (spec_kept_bands f_crit sampling_rate). band_designs butter order Wn"
    and "0 \<le> order" and "0 < sampling_rate"
    and "fractional_octave_frequencies num_fractions freq_range True =
           Inr (nominal, exact, Some f_crit)"
  shows "\<exists>sos ws. sos_coefficients butter sampling_rate num_fractions freq_range order = (Inr sos, ws)
           \<and> map Inr sos = map (spec_band butter order) (spec_kept_bands f_crit sampling_rate)
           \<and> list_all (\<lambda>band. length band = nat order \<and> list_all (\<lambda>row. length row = 6) band) sos
           \<and> (length sos < length exact \<longleftrightarrow> SkippingBands \<in> set ws)
           \<and> ((\<exists>Wn \<in> set (spec_kept_bands f_crit sampling_rate). 1 < snd Wn) \<longleftrightarrow>
                (\<exists>f. UpperLimitAboveNyquist f \<in> set ws))"
proof -
  have sr: "sampling_rate \<noteq> 0" using assms(3) by simp
  let ?kept = "spec_kept_bands f_crit sampling_rate"
  obtain sos ws where d: "design_bands butter order (snd f_crit) 0 ?kept = (Inr sos, ws)"
    "map Inr sos = map (spec_band butter order) ?kept"
    "list_all (\<lambda>band. length band = nat order \<and> list_all (\<lambda>row. length row = 6) band) sos"
    "(\<exists>Wn \<in> set ?kept. 1 < snd Wn) \<longleftrightarrow> ws \<noteq> []" "SkippingBands \<notin> set ws"
    using design_bands_spec [OF assms(1,2), of "snd f_crit" 0] by auto
  have len: "length sos = length ?kept"
    using d(2) by (metis length_map)
  have lens: "min (length (fst f_crit)) (length (snd f_crit)) = length exact"
    using fof_cutoff_lengths [OF assms(4)] by simp
  let ?ws0 = "if list_ex (\<lambda>b. b) (mask_skip f_crit sampling_rate) then [SkippingBands] else []"
  have res: "sos_coefficients butter sampling_rate num_fractions freq_range order =
      (Inr sos, ?ws0 @ ws)"
    using assms(2,4) d(1) kept_edges_spec [OF sr, of f_crit]
    by (simp add: sos_coefficients_def Let_def)
  have skip: "length sos < length exact \<longleftrightarrow> SkippingBands \<in> set (?ws0 @ ws)"
    using skip_iff_fewer [OF sr, of f_crit] len lens d(5) by auto
  have only: "\<And>w. w \<in> set ws \<Longrightarrow> \<exists>f. w = UpperLimitAboveNyquist f"
    using d(5) by (metis warning.exhaust)
  have up: "(\<exists>Wn \<in> set ?kept. 1 < snd Wn) \<longleftrightarrow> (\<exists>f. UpperLimitAboveNyquist f \<in> set (?ws0 @ ws))"
  proof
    assume "\<exists>Wn \<in> set ?kept. 1 < snd Wn"
    then have "ws \<noteq> []" using d(4) by simp
    then obtain w where "w \<in> set ws" by (cases ws) auto
    then show "\<exists>f. UpperLimitAboveNyquist f \<in> set (?ws0 @ ws)"
      using only by fastforce
  next
    assume "\<exists>f. UpperLimitAboveNyquist f \<in> set (?ws0 @ ws)"
    then have "ws \<noteq> []" by (auto split: if_splits)
    then show "\<exists>Wn \<in> set ?kept. 1 < snd Wn" using d(4) by simp
  qed
  show ?thesis
    using res d(2,3) skip up by blast
qed

lemma fof_cutoff_values:
  assumes "fractional_octave_frequencies num_fractions freq_range True =
             Inr (nominal, exact, Some f_crit)"
  shows "fst f_crit = map (\<lambda>f. f * octave_ratio powr (- 1 / 2 / of_int num_fractions)) exact"
    and "snd f_crit = map (\<lambda>f. f * octave_ratio powr (1 / 2 / of_int num_fractions)) exact"
    and "\<forall>f \<in> set exact. 0 < f"
proof -
  from assms obtain nom where cf:
    "center_frequencies num_fractions (freq_range ! 0) (freq_range ! 1) = Inr (nom, exact)"
    by (auto simp: fractional_octave_frequencies_def Let_def split: if_splits sum.splits)
  show "\<forall>f \<in> set exact. 0 < f"
    using center_frequencies_pos [OF cf] .
  show "fst f_crit = map (\<lambda>f. f * octave_ratio powr (- 1 / 2 / of_int num_fractions)) exact"
    using assms cf
    by (auto simp: fractional_octave_frequencies_def Let_def split: if_splits sum.splits)
  show "snd f_crit = map (\<lambda>f. f * octave_ratio powr (1 / 2 / of_int num_fractions)) exact"
    using assms cf
    by (auto simp: fractional_octave_frequencies_def Let_def split: if_splits sum.splits)
qed








subsection \<open>Bands above the Nyquist frequency\<close>

lemma np_round_eqI:
  assumes "of_int k - 1 / 2 < x" and "x < of_int k + 1 / 2"
  shows "np_round x = k"
proof (cases "of_int k \<le> x")
  case True
  then have f: "\<lfloor>x\<rfloor> = k"
    using assms(2) by (intro floor_unique) simp_all
  show ?thesis
    using assms(2) by (simp add: np_round_def f)
next
  case False
  then have f: "\<lfloor>x\<rfloor> = k - 1"
    using assms(1) by (intro floor_unique) simp_all
  show ?thesis
    using assms(1) False by (simp add: np_round_def f)
qed

lemma index_500: "np_round (of_int 1 * ln (500 / 1000) / ln octave_ratio) = - 1"
proof -
  define h where "h = octave_ratio powr (1 / 2)"
  have hb: "141 / 100 < h" "h < 142 / 100"
    using octave_ratio_half_bounds by (simp_all add: h_def)
  have lnG: "ln octave_ratio = 2 * ln h"
    using octave_ratio_pos by (simp add: h_def)
  have hpos: "0 < h" using hb(1) by linarith
  have lnh: "0 < ln h" using hb(1) by (intro ln_gt_zero) linarith
  have l1: "ln h < ln 2"
    using hb(2) hpos by (subst ln_less_cancel_iff) simp_all
  have "(141 / 100 :: real) ^ 3 < h ^ 3"
    using hb(1) by (intro power_strict_mono) simp_all
  moreover have "(2::real) < (141 / 100) ^ 3"
    by (simp add: power3_eq_cube)
  ultimately have c: "2 < h ^ 3" by linarith
  have "ln 2 < ln (h ^ 3)"
    using c hpos by (subst ln_less_cancel_iff) simp_all
  then have l2: "ln 2 < 3 * ln h"
    using hpos by (simp add: ln_realpow)
  have "ln (500 / 1000 :: real) = - ln 2"
    using ln_div [of 1 "2::real"] by simp
  then have e: "of_int 1 * ln (500 / 1000) / ln octave_ratio = - (ln 2 / (2 * ln h))"
    unfolding lnG by simp
  have b1: "1 / 2 < ln 2 / (2 * ln h)"
    using l1 lnh by (simp add: pos_less_divide_eq)
  have b2: "ln 2 / (2 * ln h) < 3 / 2"
    using l2 lnh by (simp add: pos_divide_less_eq)
  show ?thesis
    unfolding e using b1 b2 by (intro np_round_eqI) simp_all
qed

lemma iec_exact_500: "iec_exact_odd 1 500 = 1000 * octave_ratio powr (- 1)"
  using index_500 by (simp add: iec_exact_odd_def)

lemma grid_500_1000:
  "fractional_octave_frequencies 1 [500, 1000] True =
     Inr (Some [500, 1000], [1000 * octave_ratio powr (- 1), 1000],
          Some ([1000 * octave_ratio powr (- 1) * octave_ratio powr (- 1 / 2),
                 1000 * octave_ratio powr (- 1 / 2)],
                [1000 * octave_ratio powr (- 1) * octave_ratio powr (1 / 2),
                 1000 * octave_ratio powr (1 / 2)]))"
  by (simp add: fractional_octave_frequencies_def center_frequencies_def
      center_frequencies_fractional_octaves_iec_def mask_select_def
      nominal_octaves_def iec_exact_1000 iec_exact_500 Let_def)

lemma octave_ratio_inverse:
  "octave_ratio powr (- 1) = octave_ratio powr (- 1 / 2) * octave_ratio powr (- 1 / 2)"
proof -
  have "octave_ratio powr (- 1 / 2) * octave_ratio powr (- 1 / 2)
      = octave_ratio powr (- 1 / 2 + - 1 / 2)"
    by (simp only: powr_add)
  also have "- 1 / 2 + - 1 / 2 = (- 1 :: real)" by simp
  finally show ?thesis by simp
qed

lemma octave_ratio_inverse_bounds:
  "49 / 100 < octave_ratio powr (- 1)" "octave_ratio powr (- 1) < 51 / 100"
proof -
  define m where "m = octave_ratio powr (- 1 / 2)"
  have a: "70 / 100 < m" "m < 71 / 100"
    using octave_ratio_minus_half_bounds by (simp_all add: m_def)
  have e: "octave_ratio powr (- 1) = m * m"
    unfolding m_def by (rule octave_ratio_inverse)
  have "(70 / 100) * (70 / 100) < m * m"
    using a(1) by (intro mult_strict_mono) simp_all
  then show "49 / 100 < octave_ratio powr (- 1)"
    unfolding e by simp
  have "m * m < (71 / 100) * (71 / 100)"
    using a by (intro mult_strict_mono) simp_all
  then show "octave_ratio powr (- 1) < 51 / 100"
    unfolding e by simp
qed

lemma octave_ratio_inverse_half:
  "octave_ratio powr (- 1) * octave_ratio powr (1 / 2) = octave_ratio powr (- 1 / 2)"
proof -
  have "octave_ratio powr (- 1) * octave_ratio powr (1 / 2) = octave_ratio powr (- 1 + 1 / 2)"
    by (simp only: powr_add)
  also have "- 1 + 1 / 2 = (- 1 / 2 :: real)" by simp
  finally show ?thesis .
qed

lemma lower_edge_skipped:
  assumes "0 < sampling_rate" and "length (fst f_crit) = length (snd f_crit)"
    and "\<exists>lo \<in> set (fst f_crit). sampling_rate / 2 \<le> lo"
  shows "length (spec_kept_bands f_crit sampling_rate) < length (fst f_crit)"
proof -
  let ?Wns = "map (\<lambda>(lo, up). (lo * 2 / sampling_rate, up * 2 / sampling_rate))
          (zip (fst f_crit) (snd f_crit))"
  from assms(3) obtain lo where lo: "lo \<in> set (fst f_crit)" "sampling_rate / 2 \<le> lo"
    by blast
  from lo(1) obtain i where i: "i < length (fst f_crit)" "fst f_crit ! i = lo"
    by (auto simp: in_set_conv_nth)
  define Wn where "Wn = ?Wns ! i"
  have il: "i < length ?Wns"
    using i(1) assms(2) by simp
  have Wn: "Wn \<in> set ?Wns" "fst Wn = lo * 2 / sampling_rate"
  proof -
    show "Wn \<in> set ?Wns"
      unfolding Wn_def using il by (rule nth_mem)
    show "fst Wn = lo * 2 / sampling_rate"
      using i assms(2) by (simp add: Wn_def)
  qed
  have "1 \<le> lo * 2 / sampling_rate"
    using lo(2) assms(1) by (simp add: pos_le_divide_eq)
  then have "1 \<le> fst Wn"
    using Wn(2) by simp
  then have "length (filter (\<lambda>Wn. \<not> 1 \<le> fst Wn) ?Wns) < length ?Wns"
    using Wn(1) length_filter_less [of Wn ?Wns "\<lambda>Wn. \<not> 1 \<le> fst Wn"] by simp
  then show ?thesis
    using assms(2) by (simp add: spec_kept_bands_def)
qed

text \<open>
  Claim C5, as amended. When the lower cutoff of some band is at or above half the sampling
  rate, the constructor of \<^verbatim>\<open>FractionalOctaveBands\<close> raises nothing, the tensor of
  coefficients has fewer bands than the frequency grid of the same range, and the warning
  about skipped bands is emitted. The design routine is assumed to return sections of the
  shape of \<^verbatim>\<open>sgn.butter\<close> on the calls the kept bands make, and the order not to be
  negative.
\<close>

theorem skipped_band_reduces_tensor:
  assumes "list_all (band_designs butter order) (spec_kept_bands f_crit sr)" and "0 \<le> order"
    and "number sampling_rate = Some sr" and "0 < sr"
    and "asarray freq_range = Inr f_lims"
    and "fractional_octave_frequencies num_fractions f_lims True =
           Inr (nominal, exact, Some f_crit)"
    and "\<exists>lo \<in> set (fst f_crit). sr / 2 \<le> lo"
  shows "\<exists>obj ws sos.
           FractionalOctaveBands_init butter (PyInt num_fractions) sampling_rate freq_range
             (PyInt order) = (Inr obj, ws)
           \<and> obj ''_coefficients'' = Some (PyArray3 sos)
           \<and> length sos < length exact
           \<and> SkippingBands \<in> set ws"
proof -
  have all: "\<forall>Wn \<in> set (spec_kept_bands f_crit sr). band_designs butter order Wn"
    using assms(1) by (simp add: list_all_iff)
  obtain sos ws where d:
    "sos_coefficients butter sr num_fractions f_lims order = (Inr sos, ws)"
    "map Inr sos = map (spec_band butter order) (spec_kept_bands f_crit sr)"
    "length sos < length exact \<longleftrightarrow> SkippingBands \<in> set ws"
    using sos_coefficients_spec [OF all assms(2,4,6)] by auto
  have lens: "length (fst f_crit) = length exact" "length (snd f_crit) = length exact"
    using fof_cutoff_lengths [OF assms(6)] by simp_all
  have "length sos = length (spec_kept_bands f_crit sr)"
    using d(2) by (metis length_map)
  then have fewer: "length sos < length exact"
    using lower_edge_skipped [OF assms(4) _ assms(7)] lens by simp
  have gc: "FractionalOctaveBands_get_coefficients butter self sampling_rate
      (PyInt num_fractions) freq_range (PyInt order) = (Inr (PyArray3 sos), ws)" for self
    using assms(3,5,6) d(1) by (simp add: FractionalOctaveBands_get_coefficients_def)
  show ?thesis
    using assms(5,6) gc fewer d(3)
    by (simp add: FractionalOctaveBands_init_def filter_init_def Let_def)
qed

lemma kept_500_1000_at_1200:
  "spec_kept_bands
     ([1000 * octave_ratio powr (- 1) * octave_ratio powr (- 1 / 2),
       1000 * octave_ratio powr (- 1 / 2)],
      [1000 * octave_ratio powr (- 1) * octave_ratio powr (1 / 2),
       1000 * octave_ratio powr (1 / 2)]) 1200
   = [(1000 * octave_ratio powr (- 1) * octave_ratio powr (- 1 / 2) * 2 / 1200,
       1000 * octave_ratio powr (- 1) * octave_ratio powr (1 / 2) * 2 / 1200)]"
proof -
  define m where "m = octave_ratio powr (- 1 / 2)"
  define v where "v = octave_ratio powr (- 1)"
  have mb: "70 / 100 < m" "m < 71 / 100"
    using octave_ratio_minus_half_bounds by (simp_all add: m_def)
  have vb: "49 / 100 < v" "v < 51 / 100"
    using octave_ratio_inverse_bounds by (simp_all add: v_def)
  have "v * m < (51 / 100) * (71 / 100)"
    using mb vb by (intro mult_strict_mono) simp_all
  then have "v * m < 3 / 5"
    by simp
  then have a: "\<not> 1 \<le> 1000 * v * m * 2 / 1200"
    by (simp add: mult.commute)
  have b: "1 \<le> 1000 * m * 2 / 1200"
    using mb(1) by simp
  show ?thesis
    unfolding spec_kept_bands_def m_def [symmetric] v_def [symmetric]
    using a b by simp
qed

theorem skipped_band_reduces_tensor_witness:
  "list_all (band_designs butter_stand_in 14)
     (spec_kept_bands
        ([1000 * octave_ratio powr (- 1) * octave_ratio powr (- 1 / 2),
          1000 * octave_ratio powr (- 1 / 2)],
         [1000 * octave_ratio powr (- 1) * octave_ratio powr (1 / 2),
          1000 * octave_ratio powr (1 / 2)]) 1200)
   \<and> (0::int) \<le> 14 \<and> number (PyInt 1200) = Some 1200 \<and> (0::real) < 1200
   \<and> asarray (PyTuple [PyInt 500, PyInt 1000]) = Inr [500, 1000]
   \<and> (\<exists>lo \<in> set [1000 * octave_ratio powr (- 1) * octave_ratio powr (- 1 / 2),
                     1000 * octave_ratio powr (- 1 / 2)]. 1200 / 2 \<le> lo)
   \<and> (\<exists>obj ws sos.
           FractionalOctaveBands_init butter_stand_in (PyInt 1) (PyInt 1200)
             (PyTuple [PyInt 500, PyInt 1000]) (PyInt 14) = (Inr obj, ws)
           \<and> obj ''_coefficients'' = Some (PyArray3 sos)
           \<and> length sos < length [1000 * octave_ratio powr (- 1), 1000]
           \<and> SkippingBands \<in> set ws)"
proof -
  let ?f_crit = "([1000 * octave_ratio powr (- 1) * octave_ratio powr (- 1 / 2),
          1000 * octave_ratio powr (- 1 / 2)],
         [1000 * octave_ratio powr (- 1) * octave_ratio powr (1 / 2),
          1000 * octave_ratio powr (1 / 2)])"
  define m where "m = octave_ratio powr (- 1 / 2)"
  define v where "v = octave_ratio powr (- 1)"
  define h where "h = octave_ratio powr (1 / 2)"
  have mb: "70 / 100 < m" "m < 71 / 100"
    using octave_ratio_minus_half_bounds by (simp_all add: m_def)
  have vb: "49 / 100 < v" "v < 51 / 100"
    using octave_ratio_inverse_bounds by (simp_all add: v_def)
  have vh: "v * h = m"
    unfolding v_def h_def m_def by (rule octave_ratio_inverse_half)
  have vm1: "v * m < (51 / 100) * (71 / 100)"
    using mb vb by (intro mult_strict_mono) simp_all
  have vm0: "0 < v * m"
    using mb vb by simp
  have up: "1 < 1000 * v * h * 2 / 1200"
    using mb(1) by (simp add: mult.assoc vh)
  have "v * m < 3 / 5"
    using vm1 by simp
  then have lo1: "1000 * v * m * 2 / 1200 < 1"
    by (simp add: mult.commute)
  have lo0: "0 < 1000 * v * m * 2 / 1200"
    using vm0 by (simp add: mult.commute)
  have bd: "band_designs butter_stand_in 14 (1000 * v * m * 2 / 1200, 1000 * v * h * 2 / 1200)"
    using up lo0 lo1
    by (simp add: band_designs_def butter_stand_in_def critical_ok_def butter_sections_def
        list_all_iff)
  have kept: "list_all (band_designs butter_stand_in 14) (spec_kept_bands ?f_crit 1200)"
    unfolding kept_500_1000_at_1200 using bd by (simp add: m_def v_def h_def)
  have a: "asarray (PyTuple [PyInt 500, PyInt 1000]) = Inr [500, 1000]"
    by (simp add: asarray_def)
  have n: "number (PyInt 1200) = Some 1200"
    by simp
  have lo: "\<exists>lo \<in> set (fst ?f_crit). 1200 / 2 \<le> lo"
    using octave_ratio_minus_half_bounds(1) by simp
  show ?thesis
    using skipped_band_reduces_tensor [OF kept _ n _ a grid_500_1000 lo] kept a lo
    by simp
qed


subsection \<open>The magnitude responses of the reconstructing filter bank\<close>

lemma slice_assign_nth:
  assumes "0 \<le> start" and "stop = start + int (length vals)" and "stop \<le> int (length row)"
  shows "\<exists>r. slice_assign row start stop vals = Inr r \<and> length r = length row
           \<and> (\<forall>i < length row. r ! i =
                 (if start \<le> int i \<and> int i < stop then vals ! (i - nat start) else row ! i))"
proof -
  have s: "slice_bound (length row) start = nat start"
    using assms by (simp add: slice_bound_def)
  have e: "slice_bound (length row) stop = nat start + length vals"
    using assms by (simp add: slice_bound_def nat_add_distrib)
  let ?r = "take (nat start) row @ vals @ drop (nat start + length vals) row"
  have eq: "slice_assign row start stop vals = Inr ?r"
    by (simp add: slice_assign_def s e Let_def)
  have le: "nat start + length vals \<le> length row"
    using assms by linarith
  have len: "length ?r = length row"
    using le by simp
  have nth: "?r ! i = (if start \<le> int i \<and> int i < stop then vals ! (i - nat start) else row ! i)"
    if "i < length row" for i
  proof -
    consider "i < nat start" | "nat start \<le> i" "i < nat start + length vals"
      | "nat start + length vals \<le> i"
      by linarith
    then show ?thesis
    proof cases
      case 1
      then have "\<not> start \<le> int i"
        by linarith
      then show ?thesis
        using 1 le by (simp add: nth_append)
    next
      case 2
      then have "start \<le> int i \<and> int i < stop"
        using assms(1,2) by linarith
      moreover have "i - nat start < length vals"
        using 2 by linarith
      ultimately show ?thesis
        using 2 le by (simp add: nth_append)
    next
      case 3
      then have "\<not> int i < stop"
        using assms(1,2) by linarith
      moreover have "drop (nat start + length vals) row ! (i - nat start - length vals) = row ! i"
        using 3 that le by simp
      moreover have "\<not> i < nat start" "\<not> i - nat start < length vals"
        using 3 by linarith+
      ultimately show ?thesis
        using le by (simp add: nth_append)
    qed
  qed
  show ?thesis
    using eq len nth by (intro exI [of _ ?r]) simp
qed

lemma zero_from_length: "length (zero_from row s) = length row"
  by (simp add: zero_from_def slice_bound_def Let_def)

lemma zero_from_nth:
  assumes "0 \<le> s" and "i < length row"
  shows "zero_from row s ! i = (if s \<le> int i then 0 else row ! i)"
proof -
  have b: "slice_bound (length row) s = min (nat s) (length row)"
    using assms(1) by (simp add: slice_bound_def)
  show ?thesis
    using assms by (auto simp: zero_from_def b Let_def nth_append min_def)
qed

lemma zero_before_length: "length (zero_before row e) = length row"
  by (simp add: zero_before_def slice_bound_def Let_def)

lemma zero_before_nth:
  assumes "0 \<le> e" and "i < length row"
  shows "zero_before row e ! i = (if int i < e then 0 else row ! i)"
proof -
  have b: "slice_bound (length row) e = min (nat e) (length row)"
    using assms(1) by (simp add: slice_bound_def)
  show ?thesis
    using assms by (auto simp: zero_before_def b Let_def nth_append min_def)
qed

lemma map_funpow: "((map (f :: 'a \<Rightarrow> 'a)) ^^ n) xs = map (f ^^ n) xs"
proof (induction n)
  case 0
  show ?case
    by simp
next
  case (Suc n)
  then show ?case
    by simp
qed

lemma ramp_phi_length: "length (ramp_phi slope P) = nat (2 * P + 1)"
  by (simp add: ramp_phi_def Let_def map_funpow)

lemma ramp_phi_nth:
  assumes "i < nat (2 * P + 1)"
  shows "ramp_phi slope P ! i = spec_phi slope P (int i - P)"
proof -
  have len: "i < length [- P .. P]"
    using assms by simp
  have "[- P .. P] ! i = - P + int i"
    using assms by (intro nth_upto) linarith
  then show ?thesis
    using len by (simp add: ramp_phi_def spec_phi_def Let_def map_funpow)
qed

lemma mask_step_rows:
  assumes g: "rows_are g n nb f" and b: "1 \<le> b" "b < n"
    and P: "0 \<le> P ! b" and lo: "0 \<le> k_1 ! b - P ! b" and hi: "k_1 ! b + P ! b < int nb"
  shows "\<exists>g'. mask_step k_1 P slope b g = Inr g'
           \<and> rows_are g' n nb (step_magnitude k_1 P slope b f)"
proof -
  let ?lo = "k_1 ! b - P ! b"
  let ?hi = "k_1 ! b + P ! b"
  have len: "length g = n"
    using g by (simp add: rows_are_def)
  have row: "length (g ! j) = nb" "\<forall>i < nb. g ! j ! i = f j i" if "j < n" for j
    using g that by (simp_all add: rows_are_def)
  have bb: "b - 1 < n" "b - 1 \<noteq> b" "b - 1 < length g" "b < length g"
    using b len by simp_all
  have hi0: "0 \<le> ?hi"
    using P lo by linarith
  obtain fo fi where fades: "mask_fades k_1 P slope b g = Inr (g[b - 1 := fo, b := fi])"
    and fo: "length fo = nb"
      "\<forall>i < nb. fo ! i = (if 0 < P ! b \<and> ?lo \<le> int i \<and> int i \<le> ?hi
                          then cos (pi / 2 * spec_phi slope (P ! b) (int i - k_1 ! b))
                          else f (b - 1) i)"
    and fi: "length fi = nb"
      "\<forall>i < nb. fi ! i = (if 0 < P ! b \<and> ?lo \<le> int i \<and> int i \<le> ?hi
                          then sin (pi / 2 * spec_phi slope (P ! b) (int i - k_1 ! b))
                          else f b i)"
  proof (cases "0 < P ! b")
    case True
    let ?phi = "ramp_phi slope (P ! b)"
    let ?stop = "?hi + 1"
    have lphi: "length ?phi = nat (2 * P ! b + 1)"
      by (rule ramp_phi_length)
    have stop: "?stop = ?lo + int (length (map h ?phi))" for h :: "real \<Rightarrow> real"
      using True by (simp add: lphi)
    have phi: "?phi ! (i - nat ?lo) = spec_phi slope (P ! b) (int i - k_1 ! b)"
        "i - nat ?lo < length ?phi"
      if "?lo \<le> int i" "int i < ?stop" for i
    proof -
      have i: "i - nat ?lo < nat (2 * P ! b + 1)"
        using that lo by linarith
      have eq: "int (i - nat ?lo) - P ! b = int i - k_1 ! b"
        using that lo by linarith
      show "?phi ! (i - nat ?lo) = spec_phi slope (P ! b) (int i - k_1 ! b)"
        by (simp only: ramp_phi_nth [OF i] eq)
      show "i - nat ?lo < length ?phi"
        using i by (simp add: lphi)
    qed
    have s1: "?stop \<le> int (length (g ! (b - 1)))" "?stop \<le> int (length (g ! b))"
      using hi row(1) [OF bb(1)] row(1) [OF b(2)] by simp_all
    obtain fo where fo: "slice_assign (g ! (b - 1)) ?lo ?stop (map (\<lambda>x. cos (pi / 2 * x)) ?phi) = Inr fo"
      "length fo = length (g ! (b - 1))"
      "\<forall>i < length (g ! (b - 1)). fo ! i =
         (if ?lo \<le> int i \<and> int i < ?stop then map (\<lambda>x. cos (pi / 2 * x)) ?phi ! (i - nat ?lo)
          else g ! (b - 1) ! i)"
      using slice_assign_nth [OF lo stop s1(1)] by blast
    obtain fi where fi: "slice_assign (g ! b) ?lo ?stop (map (\<lambda>x. sin (pi / 2 * x)) ?phi) = Inr fi"
      "length fi = length (g ! b)"
      "\<forall>i < length (g ! b). fi ! i =
         (if ?lo \<le> int i \<and> int i < ?stop then map (\<lambda>x. sin (pi / 2 * x)) ?phi ! (i - nat ?lo)
          else g ! b ! i)"
      using slice_assign_nth [OF lo stop s1(2)] by blast
    have e: "mask_fades k_1 P slope b g = Inr (g[b - 1 := fo, b := fi])"
      using True fo(1) fi(1) by (simp add: mask_fades_def Let_def add.assoc)
    have vo: "fo ! i = (if 0 < P ! b \<and> ?lo \<le> int i \<and> int i \<le> ?hi
                          then cos (pi / 2 * spec_phi slope (P ! b) (int i - k_1 ! b))
                          else f (b - 1) i)" if "i < nb" for i
    proof (cases "?lo \<le> int i \<and> int i < ?stop")
      case True
      then show ?thesis
        using fo(3) that row [OF bb(1)] phi [of i] \<open>0 < P ! b\<close> by simp
    next
      case False
      then show ?thesis
        using fo(3) that row [OF bb(1)] by auto
    qed
    have vi: "fi ! i = (if 0 < P ! b \<and> ?lo \<le> int i \<and> int i \<le> ?hi
                          then sin (pi / 2 * spec_phi slope (P ! b) (int i - k_1 ! b))
                          else f b i)" if "i < nb" for i
    proof (cases "?lo \<le> int i \<and> int i < ?stop")
      case True
      then show ?thesis
        using fi(3) that row [OF b(2)] phi [of i] \<open>0 < P ! b\<close> by simp
    next
      case False
      then show ?thesis
        using fi(3) that row [OF b(2)] by auto
    qed
    show ?thesis
      using that [OF e] fo(2) fi(2) row(1) [OF bb(1)] row(1) [OF b(2)] vo vi by simp
  next
    case False
    have e: "mask_fades k_1 P slope b g = Inr (g[b - 1 := g ! (b - 1), b := g ! b])"
      using False by (simp add: mask_fades_def)
    show ?thesis
      using that [OF e] row [OF bb(1)] row [OF b(2)] False by simp
  qed
  let ?g1 = "g[b - 1 := fo, b := fi]"
  let ?g' = "mask_zeros k_1 P b ?g1"
  have g1: "?g1 ! (b - 1) = fo" "?g1 ! b = fi"
    using bb by simp_all
  have g': "?g' = g[b - 1 := zero_from fo ?hi, b := zero_before fi ?lo]"
    using bb by (simp add: mask_zeros_def Let_def list_update_swap)
  have step: "mask_step k_1 P slope b g = Inr ?g'"
    using fades by (simp add: mask_step_def)
  have "rows_are ?g' n nb (step_magnitude k_1 P slope b f)"
    unfolding rows_are_def
  proof (intro conjI allI impI)
    show "length ?g' = n"
      unfolding g' using len by simp
  next
    fix j assume j: "j < n"
    show "length (?g' ! j) = nb"
      unfolding g' using j len bb fo(1) fi(1) row(1) [OF j]
      by (simp add: nth_list_update zero_from_length zero_before_length)
  next
    fix j i assume j: "j < n" and i: "i < nb"
    consider "j = b - 1" | "j = b" | "j \<noteq> b - 1" "j \<noteq> b"
      by blast
    then show "?g' ! j ! i = step_magnitude k_1 P slope b f j i"
    proof cases
      case 1
      then have "?g' ! j = zero_from fo ?hi"
        unfolding g' using bb by simp
      then show ?thesis
        using 1 bb zero_from_nth [OF hi0, of i fo] fo i
        by (auto simp: step_magnitude_def)
    next
      case 2
      then have "?g' ! j = zero_before fi ?lo"
        unfolding g' using bb by simp
      then show ?thesis
        using 2 bb zero_before_nth [OF lo, of i fi] fi i
        by (auto simp: step_magnitude_def)
    next
      case 3
      then have "?g' ! j = g ! j"
        unfolding g' by simp
      then show ?thesis
        using 3 row(2) [OF j] i by (simp add: step_magnitude_def)
    qed
  qed
  then show ?thesis
    using step by blast
qed

lemma funpow_sin_one: "((\<lambda>x. sin (pi / 2 * x)) ^^ k) 1 = (1::real)"
  by (induction k) simp_all


lemma spec_phi_top:
  assumes "0 < P"
  shows "spec_phi slope P P = 1"
proof -
  have h: "(of_int P :: real) / of_int P = 1"
    using assms by simp
  show ?thesis
    unfolding spec_phi_def by (simp only: h funpow_sin_one) simp
qed


lemma rows_are_cong:
  assumes "rows_are g n nb f" and "\<And>j i. j < n \<Longrightarrow> i < nb \<Longrightarrow> f j i = f' j i"
  shows "rows_are g n nb f'"
  using assms by (simp add: rows_are_def)

lemma fade_in_one:
  assumes "m = 0 \<or> (0 \<le> P ! m \<and> k_1 ! m + P ! m < int i)"
  shows "fade_in k_1 P slope m i = 1"
  using assms by (auto simp: fade_in_def)

lemma step_magnitude_after:
  assumes "Suc m < n"
    and "m = 0 \<or> (0 \<le> P ! m \<and> k_1 ! m + P ! m < k_1 ! Suc m - P ! Suc m)"
  shows "step_magnitude k_1 P slope (Suc m) (magnitude_after k_1 P slope n m) j i =
         magnitude_after k_1 P slope n (Suc m) j i"
proof -
  consider "j = m" | "j = Suc m" | "j < m" | "Suc m < j"
    by linarith
  then show ?thesis
  proof cases
    case 1
    show ?thesis
    proof (cases "0 < P ! Suc m \<and> k_1 ! Suc m - P ! Suc m \<le> int i")
      case True
      have "fade_in k_1 P slope m i = 1"
        using assms(2) True by (intro fade_in_one) auto
      then show ?thesis
        using 1 assms(1) by (simp add: step_magnitude_def magnitude_after_def fade_out_def)
    next
      case False
      then show ?thesis
        using 1 assms(1) by (auto simp: step_magnitude_def magnitude_after_def fade_out_def)
    qed
  next
    case 2
    then show ?thesis
      by (simp add: step_magnitude_def magnitude_after_def fade_in_def)
  next
    case 3
    then show ?thesis
      by (simp add: step_magnitude_def magnitude_after_def)
  next
    case 4
    then show ?thesis
      by (simp add: step_magnitude_def magnitude_after_def)
  qed
qed

lemma mask_loop_rows:
  assumes ins: "\<forall>b. 1 \<le> b \<and> b < n \<longrightarrow> 0 \<le> k_1 ! b - P ! b \<and> k_1 ! b + P ! b < int nb"
    and pos: "\<forall>b. 1 \<le> b \<and> b < n \<longrightarrow> 0 \<le> P ! b"
    and ord: "\<forall>b. 1 \<le> b \<and> Suc b < n \<longrightarrow> k_1 ! b + P ! b < k_1 ! Suc b - P ! Suc b"
    and "m < n"
    and "rows_are g n nb (magnitude_after k_1 P slope n m)"
  shows "\<exists>g'. mask_loop k_1 P slope [Suc m ..< n] g = Inr g'
           \<and> rows_are g' n nb (magnitude_after k_1 P slope n (n - 1))"
  using assms(4,5)
proof (induction k \<equiv> "n - Suc m" arbitrary: m g)
  case 0
  then have "Suc m = n"
    by simp
  then show ?case
    using 0 by auto
next
  case (Suc k)
  then have lt: "Suc m < n"
    by simp
  have b: "1 \<le> Suc m"
    by simp
  obtain g1 where g1: "mask_step k_1 P slope (Suc m) g = Inr g1"
    "rows_are g1 n nb (step_magnitude k_1 P slope (Suc m) (magnitude_after k_1 P slope n m))"
    using mask_step_rows [OF Suc.prems(2) b lt, of P k_1 slope] ins pos lt by auto
  have o: "m = 0 \<or> (0 \<le> P ! m \<and> k_1 ! m + P ! m < k_1 ! Suc m - P ! Suc m)"
    using ord pos lt by (cases "m = 0") auto
  have r: "rows_are g1 n nb (magnitude_after k_1 P slope n (Suc m))"
    using g1(2) step_magnitude_after [OF lt o] by (rule rows_are_cong)
  have k: "k = n - Suc (Suc m)"
    using Suc.hyps(2) by simp
  obtain g' where g': "mask_loop k_1 P slope [Suc (Suc m) ..< n] g1 = Inr g'"
    "rows_are g' n nb (magnitude_after k_1 P slope n (n - 1))"
    using Suc.hyps(1) [OF k lt r] by blast
  have "[Suc m ..< n] = Suc m # [Suc (Suc m) ..< n]"
    using lt by (simp add: upt_conv_Cons)
  then show ?case
    using g1(1) g' by simp
qed

lemma magnitude_after_last:
  assumes "j < n"
  shows "magnitude_after k_1 P slope n (n - 1) j i =
         fade_in k_1 P slope j i * fade_out k_1 P slope n j i"
proof (cases "j < n - 1")
  case True
  then show ?thesis
    by (simp add: magnitude_after_def)
next
  case False
  then have "j = n - 1"
    using assms by simp
  then show ?thesis
    using assms by (simp add: magnitude_after_def fade_out_def)
qed

lemma fade_identity:
  assumes "Suc m < n"
    and "m = 0 \<or> (0 \<le> P ! m \<and> k_1 ! m + P ! m < k_1 ! Suc m - P ! Suc m)"
    and "0 \<le> P ! Suc m"
  shows "(fade_in k_1 P slope m i * fade_out k_1 P slope n m i)\<^sup>2
           + (fade_in k_1 P slope (Suc m) i)\<^sup>2 = (fade_in k_1 P slope m i)\<^sup>2"
proof -
  let ?lo = "k_1 ! Suc m - P ! Suc m"
  let ?hi = "k_1 ! Suc m + P ! Suc m"
  consider "int i < ?lo" | "?lo \<le> int i" "int i < ?hi" | "?hi \<le> int i"
    by linarith
  then show ?thesis
  proof cases
    case 1
    then have "\<not> ?hi \<le> int i"
      using assms(3) by linarith
    then show ?thesis
      using 1 assms(1) by (simp add: fade_out_def fade_in_def)
  next
    case 2
    then have Ppos: "0 < P ! Suc m"
      by linarith
    have one: "fade_in k_1 P slope m i = 1"
      using assms(2) 2 by (intro fade_in_one) auto
    have o: "fade_out k_1 P slope n m i =
        cos (pi / 2 * spec_phi slope (P ! Suc m) (int i - k_1 ! Suc m))"
      using 2 Ppos assms(1) by (simp add: fade_out_def)
    have i: "fade_in k_1 P slope (Suc m) i =
        sin (pi / 2 * spec_phi slope (P ! Suc m) (int i - k_1 ! Suc m))"
      using 2 Ppos by (simp add: fade_in_def)
    show ?thesis
      unfolding one o i by (simp add: cos_squared_eq)
  next
    case 3
    have one: "fade_in k_1 P slope m i = 1"
      using assms(2,3) 3 by (intro fade_in_one) auto
    have o: "fade_out k_1 P slope n m i = 0"
      using 3 assms(1) by (simp add: fade_out_def)
    have "fade_in k_1 P slope (Suc m) i = 1"
    proof (cases "0 < P ! Suc m \<and> int i \<le> ?hi")
      case True
      then have "int i - k_1 ! Suc m = P ! Suc m"
        using 3 by linarith
      then show ?thesis
        using True 3 assms(3) by (simp add: fade_in_def spec_phi_top)
    next
      case False
      then show ?thesis
        using 3 assms(3) by (auto simp: fade_in_def)
    qed
    then show ?thesis
      unfolding one o by simp
  qed
qed

lemma fade_sum:
  assumes pos: "\<forall>b. 1 \<le> b \<and> b < n \<longrightarrow> 0 \<le> P ! b"
    and ord: "\<forall>b. 1 \<le> b \<and> Suc b < n \<longrightarrow> k_1 ! b + P ! b < k_1 ! Suc b - P ! Suc b"
    and "m < n"
  shows "(\<Sum>j < m. (fade_in k_1 P slope j i * fade_out k_1 P slope n j i)\<^sup>2)
           + (fade_in k_1 P slope m i)\<^sup>2 = 1"
  using assms(3)
proof (induction m)
  case 0
  show ?case
    by (simp add: fade_in_def)
next
  case (Suc m)
  then have lt: "Suc m < n" and IH:
    "(\<Sum>j < m. (fade_in k_1 P slope j i * fade_out k_1 P slope n j i)\<^sup>2)
       + (fade_in k_1 P slope m i)\<^sup>2 = 1"
    by simp_all
  have o: "m = 0 \<or> (0 \<le> P ! m \<and> k_1 ! m + P ! m < k_1 ! Suc m - P ! Suc m)"
    using ord pos lt by (cases "m = 0") auto
  have p: "0 \<le> P ! Suc m"
    using pos lt by simp
  show ?case
    using fade_identity [OF lt o p, of slope i] IH by simp
qed

lemma fade_sum_all:
  assumes pos: "\<forall>b. 1 \<le> b \<and> b < n \<longrightarrow> 0 \<le> P ! b"
    and ord: "\<forall>b. 1 \<le> b \<and> Suc b < n \<longrightarrow> k_1 ! b + P ! b < k_1 ! Suc b - P ! Suc b"
    and "0 < n"
  shows "(\<Sum>j < n. (fade_in k_1 P slope j i * fade_out k_1 P slope n j i)\<^sup>2) = 1"
proof -
  obtain m where n: "n = Suc m"
    using assms(3) by (cases n) auto
  have "fade_out k_1 P slope n m i = 1"
    by (simp add: fade_out_def n)
  then show ?thesis
    using fade_sum [OF pos ord, of m slope i] by (simp add: n)
qed

lemma fade_bounds:
  "\<bar>fade_in k_1 P slope j i\<bar> \<le> 1" "\<bar>fade_out k_1 P slope n j i\<bar> \<le> 1"
  by (simp_all add: fade_in_def fade_out_def)

lemma fade_square_bounds:
  "0 \<le> (fade_in k_1 P slope j i * fade_out k_1 P slope n j i)\<^sup>2"
  "(fade_in k_1 P slope j i * fade_out k_1 P slope n j i)\<^sup>2 \<le> 1"
proof -
  have "\<bar>fade_in k_1 P slope j i * fade_out k_1 P slope n j i\<bar> \<le> 1 * 1"
    unfolding abs_mult using fade_bounds by (intro mult_mono) simp_all
  then show "(fade_in k_1 P slope j i * fade_out k_1 P slope n j i)\<^sup>2 \<le> 1"
    by (simp add: abs_square_le_1)
qed simp

lemma band_sum_rows:
  assumes "rows_are g n nb f" and "i < nb"
  shows "band_sum g i = (\<Sum>j < n. f j i)"
proof -
  have "band_sum g i = (\<Sum>j = 0 ..< length g. g ! j ! i)"
    by (simp add: band_sum_def sum_list_sum_nth)
  also have "\<dots> = (\<Sum>j = 0 ..< n. f j i)"
    using assms by (intro sum.cong) (simp_all add: rows_are_def)
  finally show ?thesis
    by (simp add: atLeast0LessThan)
qed

lemma np_round_mono:
  assumes "x \<le> y"
  shows "np_round x \<le> np_round y"
proof (cases "\<lfloor>x\<rfloor> = \<lfloor>y\<rfloor>")
  case True
  then show ?thesis
    using assms by (auto simp: np_round_def Let_def)
next
  case False
  then have "\<lfloor>x\<rfloor> + 1 \<le> \<lfloor>y\<rfloor>"
    using floor_mono [OF assms] by linarith
  moreover have "np_round x \<le> \<lfloor>x\<rfloor> + 1" "\<lfloor>y\<rfloor> \<le> np_round y"
    by (auto simp: np_round_def Let_def)
  ultimately show ?thesis
    by linarith
qed

lemma np_round_nonneg: "0 \<le> x \<Longrightarrow> 0 \<le> np_round x"
  using np_round_mono [of 0 x] by (simp add: np_round_0)

lemma sorted_map_mono_on:
  assumes "sorted xs" and "\<And>x y. x \<in> set xs \<Longrightarrow> y \<in> set xs \<Longrightarrow> x \<le> y \<Longrightarrow> h x \<le> h y"
  shows "sorted (map h xs)"
  unfolding sorted_map using assms(1)
  by (rule sorted_wrt_mono_rel [rotated]) (use assms(2) in blast)

lemma iec_exact_odd_mono:
  assumes "1 \<le> n" and "0 < x" and "x \<le> y"
  shows "iec_exact_odd n x \<le> iec_exact_odd n y"
proof -
  have lnG: "0 < ln octave_ratio"
    using octave_ratio_gt_1 by simp
  have "ln (x / 1000) \<le> ln (y / 1000)"
    using assms(2,3) by simp
  then have "of_int n * ln (x / 1000) \<le> of_int n * ln (y / 1000)"
    using assms(1) by (intro mult_left_mono) simp_all
  then have "of_int n * ln (x / 1000) / ln octave_ratio \<le> of_int n * ln (y / 1000) / ln octave_ratio"
    using lnG by (simp add: divide_right_mono)
  then have "np_round (of_int n * ln (x / 1000) / ln octave_ratio)
      \<le> np_round (of_int n * ln (y / 1000) / ln octave_ratio)"
    by (rule np_round_mono)
  then have "(of_int (np_round (of_int n * ln (x / 1000) / ln octave_ratio)) :: real) / of_int n
      \<le> of_int (np_round (of_int n * ln (y / 1000) / ln octave_ratio)) / of_int n"
    using assms(1) by (intro divide_right_mono) simp_all
  then have "octave_ratio powr (of_int (np_round (of_int n * ln (x / 1000) / ln octave_ratio)) / of_int n)
      \<le> octave_ratio powr (of_int (np_round (of_int n * ln (y / 1000) / ln octave_ratio)) / of_int n)"
    using octave_ratio_gt_1 by (intro powr_mono) simp_all
  then show ?thesis
    by (simp add: iec_exact_odd_def Let_def)
qed

lemma nominal_sorted: "sorted nominal_octaves" "sorted nominal_thirds"
  by (simp_all add: nominal_octaves_def nominal_thirds_def)

lemma nominal_pos: "\<forall>f \<in> set nominal_octaves. 0 < f" "\<forall>f \<in> set nominal_thirds. 0 < f"
  by (simp_all add: nominal_octaves_def nominal_thirds_def)

lemma center_frequencies_sorted:
  assumes "center_frequencies num_fractions low high = Inr (nominal, exact)"
    and "1 \<le> num_fractions"
  shows "sorted exact"
proof (cases "num_fractions = 1 \<or> num_fractions = 3")
  case True
  define table where "table = (if num_fractions = 1 then nominal_octaves else nominal_thirds)"
  have t: "sorted table" "\<forall>f \<in> set table. 0 < f"
    using nominal_sorted nominal_pos by (simp_all add: table_def)
  have odd: "num_fractions mod 2 \<noteq> 0"
    using True by auto
  have "exact = mask_select (map (\<lambda>f. low \<le> f \<and> f \<le> high) table)
      (map (iec_exact_odd num_fractions) table)"
    using assms(1) True odd
    by (auto simp: center_frequencies_def center_frequencies_fractional_octaves_iec_def
        Let_def table_def)
  then have e: "exact = map (iec_exact_odd num_fractions)
      (filter (\<lambda>f. low \<le> f \<and> f \<le> high) table)"
    by (simp add: mask_select_map)
  have "sorted (filter (\<lambda>f. low \<le> f \<and> f \<le> high) table)"
    using t(1) by (rule sorted_wrt_filter)
  then show ?thesis
    unfolding e using t(2) assms(2)
    by (intro sorted_map_mono_on iec_exact_odd_mono) auto
next
  case False
  then obtain a b where e:
    "exact = map (\<lambda>i. 1000 * 2 powr (of_int i / of_int num_fractions)) [a .. b]"
    using assms(1)
    by (auto simp: center_frequencies_def exact_center_frequencies_fractional_octaves_def
        Let_def split: if_splits sum.splits)
  have "(1000::real) * 2 powr (of_int i / of_int num_fractions)
      \<le> 1000 * 2 powr (of_int j / of_int num_fractions)" if "i \<le> j" for i j :: int
  proof -
    have "(of_int i :: real) / of_int num_fractions \<le> of_int j / of_int num_fractions"
      using that assms(2) by (intro divide_right_mono) simp_all
    then show ?thesis
      by simp
  qed
  then show ?thesis
    unfolding e by (intro sorted_map_mono_on) simp_all
qed

lemma fof_sorted:
  assumes "fractional_octave_frequencies num_fractions freq_range True =
             Inr (nominal, exact, Some f_crit)"
    and "1 \<le> num_fractions"
  shows "sorted exact"
proof -
  from assms(1) obtain nom where cf:
    "center_frequencies num_fractions (freq_range ! 0) (freq_range ! 1) = Inr (nom, exact)"
    by (auto simp: fractional_octave_frequencies_def Let_def split: if_splits sum.splits)
  show ?thesis
    using center_frequencies_sorted [OF cf assms(2)] .
qed

lemma dft_lines_eq:
  assumes "fst f_cut_off = map (\<lambda>f. f * c1) f_m" and "snd f_cut_off = map (\<lambda>f. f * c2) f_m"
  shows "line_k_1 (dft_lines f_m f_cut_off overlap n_samples sampling_rate) =
           map (\<lambda>f. np_round (of_int n_samples * (f * c1) / sampling_rate))
             (filter (\<lambda>f. f < sampling_rate / 2) f_m)"
    and "line_k_m (dft_lines f_m f_cut_off overlap n_samples sampling_rate) =
           map (\<lambda>f. np_round (of_int n_samples * f / sampling_rate))
             (filter (\<lambda>f. f < sampling_rate / 2) f_m)"
    and "line_P (dft_lines f_m f_cut_off overlap n_samples sampling_rate) =
           map (\<lambda>f. np_round (overlap / 2 *
                  of_int (np_round (of_int n_samples * (f * c2) / sampling_rate)
                          - np_round (of_int n_samples * f / sampling_rate))))
             (filter (\<lambda>f. f < sampling_rate / 2) f_m)"
    and "all_kept (dft_lines f_m f_cut_off overlap n_samples sampling_rate) \<longleftrightarrow>
           list_all (\<lambda>f. f < sampling_rate / 2) f_m"
  unfolding dft_lines_def Let_def assms
  by (simp_all add: mask_select_map mask_select_map_id zip_map_map zip_same_conv_map
      list_all_iff)

lemma dft_lines_k_2:
  assumes "snd f_cut_off = map (\<lambda>f. f * c2) f_m"
  shows "line_k_2 (dft_lines f_m f_cut_off overlap n_samples sampling_rate) =
           map (\<lambda>f. np_round (of_int n_samples * (f * c2) / sampling_rate))
             (filter (\<lambda>f. f < sampling_rate / 2) f_m)"
  unfolding dft_lines_def Let_def assms by (simp add: mask_select_map)

lemma line_facts:
  assumes "1 \<le> num_fractions" and "0 \<le> overlap" and "0 < n_samples" and "0 < sampling_rate"
    and grid: "fractional_octave_frequencies num_fractions freq_range True =
           Inr (nominal, f_m, Some f_cut_off)"
    and lines: "lines = dft_lines f_m f_cut_off overlap n_samples sampling_rate"
  shows "length (line_k_1 lines) = length (line_k_m lines)"
    and "length (line_P lines) = length (line_k_m lines)"
    and "length (line_k_2 lines) = length (line_k_m lines)"
    and "\<forall>b < length (line_k_m lines). 0 \<le> line_P lines ! b"
    and "\<forall>b < length (line_k_m lines).
           line_P lines ! b =
             np_round (overlap / 2 * of_int (line_k_2 lines ! b - line_k_m lines ! b))"
    and "sorted (line_k_1 lines)"
proof -
  define c1 where "c1 = octave_ratio powr (- 1 / 2 / of_int num_fractions)"
  define c2 where "c2 = octave_ratio powr (1 / 2 / of_int num_fractions)"
  define kept where "kept = filter (\<lambda>f. f < sampling_rate / 2) f_m"
  define s where "s = of_int n_samples / sampling_rate"
  have spos: "0 < s"
    using assms(3,4) by (simp add: s_def)
  have line: "of_int n_samples * x / sampling_rate = s * x" for x
    by (simp add: s_def)
  have crit: "fst f_cut_off = map (\<lambda>f. f * c1) f_m" "snd f_cut_off = map (\<lambda>f. f * c2) f_m"
    and fpos: "\<forall>f \<in> set f_m. 0 < f"
    using fof_cutoff_values [OF grid] by (simp_all add: c1_def c2_def)
  have c1pos: "0 < c1"
    using octave_ratio_pos by (simp add: c1_def)
  have k1: "line_k_1 lines = map (\<lambda>f. np_round (s * (f * c1))) kept"
    and km: "line_k_m lines = map (\<lambda>f. np_round (s * f)) kept"
    and Ps: "line_P lines = map (\<lambda>f. np_round (overlap / 2 *
                  of_int (np_round (s * (f * c2)) - np_round (s * f)))) kept"
    using dft_lines_eq(1,2,3) [OF crit, of overlap n_samples sampling_rate]
    by (simp_all add: lines kept_def line)
  have k2: "line_k_2 lines = map (\<lambda>f. np_round (s * (f * c2))) kept"
    using dft_lines_k_2 [OF crit(2), of overlap n_samples sampling_rate]
    by (simp add: lines kept_def line)
  show "length (line_k_1 lines) = length (line_k_m lines)"
    "length (line_P lines) = length (line_k_m lines)"
    "length (line_k_2 lines) = length (line_k_m lines)"
    by (simp_all add: k1 km Ps k2)
  have kpos: "\<forall>f \<in> set kept. 0 < f"
    using fpos by (simp add: kept_def)
  have sk: "sorted kept"
    unfolding kept_def using fof_sorted [OF grid assms(1)] by (rule sorted_wrt_filter)
  have "0 \<le> np_round (overlap / 2 * of_int (np_round (s * (f * c2)) - np_round (s * f)))"
    if "f \<in> set kept" for f
  proof -
    have "0 < f"
      using kpos that by simp
    then have "f \<le> f * c2"
      using cutoff_upper_gt [OF assms(1), of f] by (simp add: c2_def)
    then have "s * f \<le> s * (f * c2)"
      using spos by simp
    then have "np_round (s * f) \<le> np_round (s * (f * c2))"
      by (rule np_round_mono)
    then have "0 \<le> overlap / 2 * of_int (np_round (s * (f * c2)) - np_round (s * f))"
      using assms(2) by simp
    then show ?thesis
      by (rule np_round_nonneg)
  qed
  then show "\<forall>b < length (line_k_m lines). 0 \<le> line_P lines ! b"
    by (simp add: km Ps)
  show "\<forall>b < length (line_k_m lines).
           line_P lines ! b =
             np_round (overlap / 2 * of_int (line_k_2 lines ! b - line_k_m lines ! b))"
    by (simp add: km Ps k2)
  have "np_round (s * (x * c1)) \<le> np_round (s * (y * c1))" if "x \<le> y" for x y
  proof -
    have "x * c1 \<le> y * c1"
      using that c1pos by simp
    then have "s * (x * c1) \<le> s * (y * c1)"
      using spos by simp
    then show ?thesis
      by (rule np_round_mono)
  qed
  then show "sorted (line_k_1 lines)"
    unfolding k1 using sk by (intro sorted_map_mono_on) simp_all
qed

lemma window_order:
  assumes "windows_disjoint k_1 P" and "sorted k_1" and "1 \<le> b" and "Suc b < length k_1"
    and "0 \<le> P ! b" and "0 \<le> P ! Suc b"
  shows "k_1 ! b + P ! b < k_1 ! Suc b - P ! Suc b"
proof (rule ccontr)
  assume n: "\<not> k_1 ! b + P ! b < k_1 ! Suc b - P ! Suc b"
  have le: "k_1 ! b \<le> k_1 ! Suc b"
    using assms(2,4) by (simp add: sorted_iff_nth_mono)
  define x where "x = max (k_1 ! b) (k_1 ! Suc b - P ! Suc b)"
  have "x \<in> transition_window k_1 P b" "x \<in> transition_window k_1 P (Suc b)"
    using n le assms(5,6) by (auto simp: transition_window_def x_def)
  moreover have "transition_window k_1 P b \<inter> transition_window k_1 P (Suc b) = {}"
    using assms(1,3,4) by (simp add: windows_disjoint_def)
  ultimately show False
    by blast
qed

lemma window_inside:
  assumes "windows_inside k_1 P n_bins" and "1 \<le> b" and "b < length k_1" and "0 \<le> P ! b"
  shows "0 \<le> k_1 ! b - P ! b \<and> k_1 ! b + P ! b < n_bins"
proof -
  have sub: "transition_window k_1 P b \<subseteq> {0 ..< n_bins}"
    using assms(1,2,3) by (simp add: windows_inside_def)
  have "k_1 ! b - P ! b \<in> transition_window k_1 P b" "k_1 ! b + P ! b \<in> transition_window k_1 P b"
    using assms(4) by (simp_all add: transition_window_def)
  then show ?thesis
    using sub by auto
qed

lemma rows_are_squared:
  assumes "rows_are g n nb f"
  shows "rows_are (map (map (\<lambda>x. x\<^sup>2)) g) n nb (\<lambda>j i. (f j i)\<^sup>2)"
  using assms by (simp add: rows_are_def)

lemma rows_are_ones: "rows_are (replicate n (replicate nb 1)) n nb (magnitude_after k_1 P slope n 0)"
  by (simp add: rows_are_def magnitude_after_def fade_in_def)

lemma squared_magnitudes_closed_form:
  assumes "1 \<le> num_fractions" and "0 \<le> overlap" and "0 < n_samples" and "0 < sampling_rate"
    and grid: "fractional_octave_frequencies num_fractions freq_range True =
           Inr (nominal, f_m, Some f_cut_off)"
    and lines: "lines = dft_lines f_m f_cut_off overlap n_samples sampling_rate"
    and ins: "windows_inside (line_k_1 lines) (line_P lines) (n_samples div 2 + 1)"
    and dis: "windows_disjoint (line_k_1 lines) (line_P lines)"
  shows "\<exists>g ws. squared_magnitudes num_fractions freq_range overlap slope n_samples sampling_rate
             = (Inr g, ws)
           \<and> rows_are g (length (line_k_m lines)) (nat (n_samples div 2 + 1))
               (\<lambda>j i. (fade_in (line_k_1 lines) (line_P lines) slope j i
                        * fade_out (line_k_1 lines) (line_P lines) slope
                            (length (line_k_m lines)) j i)\<^sup>2)"
    and "\<forall>b. 1 \<le> b \<and> b < length (line_k_m lines) \<longrightarrow> 0 \<le> line_P lines ! b"
    and "\<forall>b. 1 \<le> b \<and> Suc b < length (line_k_m lines) \<longrightarrow>
           line_k_1 lines ! b + line_P lines ! b < line_k_1 lines ! Suc b - line_P lines ! Suc b"
    and "\<forall>b. 1 \<le> b \<and> b < length (line_k_m lines) \<longrightarrow>
           0 \<le> line_k_1 lines ! b - line_P lines ! b
           \<and> line_k_1 lines ! b + line_P lines ! b < n_samples div 2 + 1"
proof -
  define n where "n = length (line_k_m lines)"
  define nb where "nb = nat (n_samples div 2 + 1)"
  define k_1 where "k_1 = line_k_1 lines"
  define P where "P = line_P lines"
  note f = line_facts [OF assms(1-4) grid lines]
  have nbi: "int nb = n_samples div 2 + 1"
    using assms(3) by (simp add: nb_def)
  have len: "length k_1 = n"
    using f(1) by (simp add: k_1_def n_def)
  have pos: "\<forall>b. 1 \<le> b \<and> b < n \<longrightarrow> 0 \<le> P ! b"
    using f(4) by (simp add: P_def n_def)
  have ord: "\<forall>b. 1 \<le> b \<and> Suc b < n \<longrightarrow> k_1 ! b + P ! b < k_1 ! Suc b - P ! Suc b"
  proof (intro allI impI)
    fix b assume b: "1 \<le> b \<and> Suc b < n"
    show "k_1 ! b + P ! b < k_1 ! Suc b - P ! Suc b"
      using window_order [of k_1 P b] dis f(6) b pos len by (simp add: k_1_def P_def)
  qed
  have inside: "\<forall>b. 1 \<le> b \<and> b < n \<longrightarrow> 0 \<le> k_1 ! b - P ! b \<and> k_1 ! b + P ! b < int nb"
  proof (intro allI impI)
    fix b assume b: "1 \<le> b \<and> b < n"
    show "0 \<le> k_1 ! b - P ! b \<and> k_1 ! b + P ! b < int nb"
      using window_inside [of k_1 P "n_samples div 2 + 1" b] ins b pos len
      by (simp add: k_1_def P_def nbi)
  qed
  show "\<forall>b. 1 \<le> b \<and> b < length (line_k_m lines) \<longrightarrow> 0 \<le> line_P lines ! b"
    using pos by (simp add: P_def n_def)
  show "\<forall>b. 1 \<le> b \<and> Suc b < length (line_k_m lines) \<longrightarrow>
           line_k_1 lines ! b + line_P lines ! b < line_k_1 lines ! Suc b - line_P lines ! Suc b"
    using ord by (simp add: P_def n_def k_1_def)
  show "\<forall>b. 1 \<le> b \<and> b < length (line_k_m lines) \<longrightarrow>
           0 \<le> line_k_1 lines ! b - line_P lines ! b
           \<and> line_k_1 lines ! b + line_P lines ! b < n_samples div 2 + 1"
    using inside by (simp add: P_def n_def k_1_def nbi)
  have loop: "\<exists>g'. mask_loop k_1 P slope [1 ..< n] (replicate n (replicate nb 1)) = Inr g'
      \<and> rows_are g' n nb (\<lambda>j i. fade_in k_1 P slope j i * fade_out k_1 P slope n j i)"
  proof (cases "n = 0")
    case True
    then show ?thesis
      by (simp add: rows_are_def)
  next
    case False
    then have n0: "0 < n"
      by simp
    obtain g' where g': "mask_loop k_1 P slope [Suc 0 ..< n] (replicate n (replicate nb 1)) = Inr g'"
      "rows_are g' n nb (magnitude_after k_1 P slope n (n - 1))"
      using mask_loop_rows [OF inside pos ord n0 rows_are_ones] by blast
    have "rows_are g' n nb (\<lambda>j i. fade_in k_1 P slope j i * fade_out k_1 P slope n j i)"
      using g'(2) magnitude_after_last by (rule rows_are_cong)
    then show ?thesis
      using g'(1) by auto
  qed
  then obtain g' where g': "mask_loop k_1 P slope [1 ..< n] (replicate n (replicate nb 1)) = Inr g'"
    "rows_are g' n nb (\<lambda>j i. fade_in k_1 P slope j i * fade_out k_1 P slope n j i)"
    by blast
  have nneg: "\<not> n_samples div 2 + 1 < 0"
    using assms(3) by simp
  have "squared_magnitudes num_fractions freq_range overlap slope n_samples sampling_rate =
      (Inr (map (map (\<lambda>x. x\<^sup>2)) g'), if \<not> all_kept lines then [SkippingBands] else [])"
    using g'(1) nneg
    by (simp add: squared_magnitudes_def grid Let_def lines [symmetric] n_def [symmetric]
        nb_def [symmetric] k_1_def [symmetric] P_def [symmetric])
  then show "\<exists>g ws. squared_magnitudes num_fractions freq_range overlap slope n_samples sampling_rate
             = (Inr g, ws)
           \<and> rows_are g (length (line_k_m lines)) (nat (n_samples div 2 + 1))
               (\<lambda>j i. (fade_in (line_k_1 lines) (line_P lines) slope j i
                        * fade_out (line_k_1 lines) (line_P lines) slope
                            (length (line_k_m lines)) j i)\<^sup>2)"
    using rows_are_squared [OF g'(2)]
    by (simp add: n_def nb_def k_1_def P_def)
qed

text \<open>
  Claim C2, as amended. Take at least one band per octave, a non-negative overlap, a
  positive number of samples and a positive sampling rate, a range that has a frequency
  grid, and at least one band whose centre frequency is below half the sampling rate.
  When the transition windows of the band boundaries are pairwise disjoint and lie inside
  the array of bins, the method raises nothing up to the step \<^verbatim>\<open>g = g**2\<close>, the squared
  magnitudes have one row for every band and one value for every bin, the values of all
  bands at one bin sum to exactly 1, at every bin, and every value lies between 0 and 1.
\<close>

theorem partition_of_unity:
  assumes "1 \<le> num_fractions" and "0 \<le> overlap" and "0 < n_samples" and "0 < sampling_rate"
    and "fractional_octave_frequencies num_fractions freq_range True =
           Inr (nominal, f_m, Some f_cut_off)"
    and "lines = dft_lines f_m f_cut_off overlap n_samples sampling_rate"
    and "line_k_m lines \<noteq> []"
    and "windows_inside (line_k_1 lines) (line_P lines) (n_samples div 2 + 1)"
    and "windows_disjoint (line_k_1 lines) (line_P lines)"
  shows "\<exists>g ws. squared_magnitudes num_fractions freq_range overlap slope n_samples sampling_rate
             = (Inr g, ws)
           \<and> length g = length (line_k_m lines)
           \<and> list_all (\<lambda>row. length row = nat (n_samples div 2 + 1)) g
           \<and> (\<forall>i < nat (n_samples div 2 + 1). band_sum g i = 1)
           \<and> list_all (list_all (\<lambda>x. 0 \<le> x \<and> x \<le> 1)) g"
proof -
  let ?n = "length (line_k_m lines)"
  let ?nb = "nat (n_samples div 2 + 1)"
  let ?F = "\<lambda>j i. (fade_in (line_k_1 lines) (line_P lines) slope j i
                    * fade_out (line_k_1 lines) (line_P lines) slope ?n j i)\<^sup>2"
  note c = squared_magnitudes_closed_form [OF assms(1-6,8,9)]
  obtain g ws where g:
    "squared_magnitudes num_fractions freq_range overlap slope n_samples sampling_rate = (Inr g, ws)"
    "rows_are g ?n ?nb ?F"
    using c(1) [of slope] by blast
  have len: "length g = ?n"
    using g(2) by (simp add: rows_are_def)
  have row: "length (g ! j) = ?nb" "\<forall>i < ?nb. g ! j ! i = ?F j i" if "j < ?n" for j
    using g(2) that by (simp_all add: rows_are_def)
  have shape: "list_all (\<lambda>row. length row = ?nb) g"
    unfolding list_all_length using row(1) len by simp
  have n0: "0 < ?n"
    using assms(7) by simp
  have total: "band_sum g i = 1" if "i < ?nb" for i
    using band_sum_rows [OF g(2) that] fade_sum_all [OF c(2,3) n0, of slope i] by simp
  have bounds: "list_all (list_all (\<lambda>x. 0 \<le> x \<and> x \<le> 1)) g"
    unfolding list_all_length
  proof (intro allI impI)
    fix j i assume j: "j < length g" and i: "i < length (g ! j)"
    have "g ! j ! i = ?F j i"
      using row [of j] j i len by simp
    then show "0 \<le> g ! j ! i \<and> g ! j ! i \<le> 1"
      using fade_square_bounds [of "line_k_1 lines" "line_P lines" slope j i ?n] by simp
  qed
  show ?thesis
    using g(1) len shape total bounds by blast
qed


lemma dft_lines_two:
  assumes "a < sampling_rate / 2" and "b < sampling_rate / 2"
  shows "dft_lines [a, b] ([a1, b1], [a2, b2]) overlap n_samples sampling_rate =
    \<lparr>line_k_1 = [np_round (of_int n_samples * a1 / sampling_rate),
                  np_round (of_int n_samples * b1 / sampling_rate)],
     line_k_m = [np_round (of_int n_samples * a / sampling_rate),
                  np_round (of_int n_samples * b / sampling_rate)],
     line_k_2 = [np_round (of_int n_samples * a2 / sampling_rate),
                  np_round (of_int n_samples * b2 / sampling_rate)],
     line_P = [np_round (overlap / 2 *
                  of_int (np_round (of_int n_samples * a2 / sampling_rate)
                          - np_round (of_int n_samples * a / sampling_rate))),
               np_round (overlap / 2 *
                  of_int (np_round (of_int n_samples * b2 / sampling_rate)
                          - np_round (of_int n_samples * b / sampling_rate)))],
     all_kept = True\<rparr>"
  using assms by (simp add: dft_lines_def mask_select_def Let_def)

lemma lines_500_1000_at_3200:
  "dft_lines [1000 * octave_ratio powr (- 1), 1000]
     ([1000 * octave_ratio powr (- 1) * octave_ratio powr (- 1 / 2),
       1000 * octave_ratio powr (- 1 / 2)],
      [1000 * octave_ratio powr (- 1) * octave_ratio powr (1 / 2),
       1000 * octave_ratio powr (1 / 2)]) 1 64 3200 =
   \<lparr>line_k_1 = [7, 14], line_k_m = [10, 20], line_k_2 = [14, 28], line_P = [2, 4],
    all_kept = True\<rparr>"
proof -
  define m where "m = octave_ratio powr (- 1 / 2)"
  define v where "v = octave_ratio powr (- 1)"
  define h where "h = octave_ratio powr (1 / 2)"
  have mb: "70 / 100 < m" "m < 71 / 100"
    using octave_ratio_minus_half_bounds by (simp_all add: m_def)
  have vb: "49 / 100 < v" "v < 51 / 100"
    using octave_ratio_inverse_bounds by (simp_all add: v_def)
  have hb: "141 / 100 < h" "h < 142 / 100"
    using octave_ratio_half_bounds by (simp_all add: h_def)
  have vh: "v * h = m"
    unfolding v_def h_def m_def by (rule octave_ratio_inverse_half)
  have vm: "(70 / 100) * (49 / 100) < m * v" "m * v < (71 / 100) * (51 / 100)"
    using mb vb by (intro mult_strict_mono; simp)+
  have below: "1000 * v < 3200 / 2" "(1000::real) < 3200 / 2"
    using vb by simp_all
  have r1: "np_round (of_int 64 * (1000 * v * m) / 3200) = 7"
    using vm by (intro np_round_eqI) simp_all
  have r2: "np_round (of_int 64 * (1000 * m) / 3200) = 14"
    using mb by (intro np_round_eqI) simp_all
  have r3: "np_round (of_int 64 * (1000 * v) / 3200) = 10"
    using vb by (intro np_round_eqI) simp_all
  have r4: "np_round (of_int 64 * 1000 / 3200) = 20"
    by (intro np_round_eqI) simp_all
  have r5: "np_round (of_int 64 * (1000 * v * h) / 3200) = 14"
    unfolding mult.assoc vh using r2 by simp
  have r6: "np_round (of_int 64 * (1000 * h) / 3200) = 28"
    using hb by (intro np_round_eqI) simp_all
  have p1: "np_round (1 / 2 * of_int (14 - 10)) = 2"
    by (intro np_round_eqI) simp_all
  have p2: "np_round (1 / 2 * of_int (28 - 20)) = 4"
    by (intro np_round_eqI) simp_all
  show ?thesis
    unfolding m_def [symmetric] v_def [symmetric] h_def [symmetric]
    by (simp only: dft_lines_two [OF below] r1 r2 r3 r4 r5 r6 p1 p2)
qed


lemma windows_two:
  "windows_inside [k, k'] [Q, Q'] n_bins \<longleftrightarrow> {k' - Q' .. k' + Q'} \<subseteq> {0 ..< n_bins}"
  "windows_disjoint [k, k'] [Q, Q']"
proof -
  have s: "{1 ..< Suc (Suc 0)} = {1::nat}"
    by auto
  show "windows_inside [k, k'] [Q, Q'] n_bins \<longleftrightarrow> {k' - Q' .. k' + Q'} \<subseteq> {0 ..< n_bins}"
    by (simp add: windows_inside_def transition_window_def s)
  show "windows_disjoint [k, k'] [Q, Q']"
    by (simp add: windows_disjoint_def s)
qed

lemma squared_magnitudes_unfold:
  assumes "fractional_octave_frequencies num_fractions freq_range True =
             Inr (nominal, f_m, Some f_cut_off)"
    and "dft_lines f_m f_cut_off overlap n_samples sampling_rate = lines"
    and "0 \<le> n_samples div 2 + 1"
  shows "squared_magnitudes num_fractions freq_range overlap slope n_samples sampling_rate =
     (case mask_loop (line_k_1 lines) (line_P lines) slope [1 ..< length (line_k_m lines)]
             (replicate (length (line_k_m lines)) (replicate (nat (n_samples div 2 + 1)) 1)) of
        Inl e \<Rightarrow> (Inl e, if \<not> all_kept lines then [SkippingBands] else [])
      | Inr g \<Rightarrow> (Inr (map (map (\<lambda>x. x\<^sup>2)) g),
                  if \<not> all_kept lines then [SkippingBands] else []))"
  using assms by (simp add: squared_magnitudes_def Let_def)

theorem partition_of_unity_witness:
  "(1::int) \<le> 1 \<and> (0::real) \<le> 1 \<and> (0::int) < 64 \<and> (0::real) < 3200
   \<and> fractional_octave_frequencies 1 [500, 1000] True =
       Inr (Some [500, 1000], [1000 * octave_ratio powr (- 1), 1000],
            Some ([1000 * octave_ratio powr (- 1) * octave_ratio powr (- 1 / 2),
                   1000 * octave_ratio powr (- 1 / 2)],
                  [1000 * octave_ratio powr (- 1) * octave_ratio powr (1 / 2),
                   1000 * octave_ratio powr (1 / 2)]))
   \<and> dft_lines [1000 * octave_ratio powr (- 1), 1000]
         ([1000 * octave_ratio powr (- 1) * octave_ratio powr (- 1 / 2),
           1000 * octave_ratio powr (- 1 / 2)],
          [1000 * octave_ratio powr (- 1) * octave_ratio powr (1 / 2),
           1000 * octave_ratio powr (1 / 2)]) 1 64 3200 =
       \<lparr>line_k_1 = [7, 14], line_k_m = [10, 20], line_k_2 = [14, 28], line_P = [2, 4],
        all_kept = True\<rparr>
   \<and> [10, 20] \<noteq> ([] :: int list)
   \<and> windows_inside [7, 14] [2, 4] (64 div 2 + 1)
   \<and> windows_disjoint [7, 14] [2, 4]
   \<and> (\<exists>g ws. squared_magnitudes 1 [500, 1000] 1 0 64 3200 = (Inr g, ws)
           \<and> length g = 2
           \<and> list_all (\<lambda>row. length row = 33) g
           \<and> (\<forall>i < 33. band_sum g i = 1)
           \<and> list_all (list_all (\<lambda>x. 0 \<le> x \<and> x \<le> 1)) g)"
proof -
  let ?lines = "\<lparr>line_k_1 = [7, 14], line_k_m = [10, 20], line_k_2 = [14, 28],
      line_P = [2, 4], all_kept = True\<rparr>"
  have w: "windows_inside [7, 14] [2, 4] (64 div 2 + 1)" "windows_disjoint [7, 14] [2, 4]"
    by (auto simp: windows_two)
  have ins: "windows_inside (line_k_1 ?lines) (line_P ?lines) (64 div 2 + 1)"
    and dis: "windows_disjoint (line_k_1 ?lines) (line_P ?lines)"
    using w by simp_all
  have ne: "line_k_m ?lines \<noteq> []"
    by simp
  have c: "\<exists>g ws. squared_magnitudes 1 [500, 1000] 1 0 64 3200 = (Inr g, ws)
           \<and> length g = 2
           \<and> list_all (\<lambda>row. length row = 33) g
           \<and> (\<forall>i < 33. band_sum g i = 1)
           \<and> list_all (list_all (\<lambda>x. 0 \<le> x \<and> x \<le> 1)) g"
    using partition_of_unity [OF _ _ _ _ grid_500_1000 lines_500_1000_at_3200 [symmetric]
        ne ins dis, where slope = 0]
    by (simp add: numeral_2_eq_2)
  show ?thesis
    using grid_500_1000 lines_500_1000_at_3200 w c by (intro conjI) simp_all
qed

text \<open>
  Against claim C2 as stated: for the range \<^verbatim>\<open>(1000, 1100)\<close> at a sampling rate of 2000 the
  centre frequency of the only band is not below half the sampling rate. The band is
  dropped with the warning and the array of magnitudes has no row. There is no band
  boundary, so the condition on the transition windows holds, and the sum over the bands
  is 0 at every bin.
\<close>

theorem empty_bank_sums_to_zero:
  "fractional_octave_frequencies 1 [1000, 1100] True =
     Inr (Some [1000], [1000],
          Some ([1000 * octave_ratio powr (- 1 / 2)], [1000 * octave_ratio powr (1 / 2)]))
   \<and> dft_lines [1000] ([1000 * octave_ratio powr (- 1 / 2)], [1000 * octave_ratio powr (1 / 2)])
        1 4096 2000 =
       \<lparr>line_k_1 = [], line_k_m = [], line_k_2 = [], line_P = [], all_kept = False\<rparr>
   \<and> windows_inside [] [] (4096 div 2 + 1)
   \<and> windows_disjoint [] []
   \<and> squared_magnitudes 1 [1000, 1100] 1 0 4096 2000 = (Inr [], [SkippingBands])
   \<and> band_sum [] 0 = 0"
proof -
  have l: "dft_lines [1000] ([1000 * octave_ratio powr (- 1 / 2)], [1000 * octave_ratio powr (1 / 2)])
        1 4096 2000 =
       \<lparr>line_k_1 = [], line_k_m = [], line_k_2 = [], line_P = [], all_kept = False\<rparr>"
    by (simp add: dft_lines_def mask_select_def Let_def)
  have n: "(0::int) \<le> 4096 div 2 + 1"
    by simp
  have s: "squared_magnitudes 1 [1000, 1100] 1 0 4096 2000 = (Inr [], [SkippingBands])"
    unfolding squared_magnitudes_unfold [OF grid_1000 l n] by simp
  show ?thesis
    using grid_1000 l s
    by (simp add: windows_inside_def windows_disjoint_def band_sum_def)
qed


end
